theory Spec2Isabelle
  imports Main "HOL-Library.AList" "HOL-Library.Char_ord" "HOL-Library.List_Lexorder"
    "HOL-Library.Product_Lexorder" "HOL-Library.Multiset" "HOL-Library.Sublist"
begin

section \<open>Ambient context: \<open>src/user/userService/userContext.ts\<close>\<close>

text \<open>
  A user is identified by its id; the remaining profile fields play no role in the
  functions modelled here.
\<close>

record User =
  user_id :: string
  email :: string

datatype context_error = NotBound

text \<open>
  \<open>isSingleUser\<close>: \<^verbatim>\<open>!process.env.AUTH || process.env.AUTH === 'single_user'\<close>.
  The environment variable is absent (\<open>None\<close>) or a string; the empty string is falsy.
\<close>

definition isSingleUser :: "string option \<Rightarrow> bool" where
  "isSingleUser auth =
     (case auth of None \<Rightarrow> True | Some a \<Rightarrow> a = [] \<or> a = ''single_user'')"

text \<open>
  \<open>currentUser\<close> reads three ambient values: the agent binding (\<open>agentContext()\<close>, of
  which only the \<open>user\<close> field is read), the user bound by \<open>runWithUser\<close>
  (\<open>userContextStorage.getStore()\<close>) and the \<open>AUTH\<close> variable. The single user that
  \<open>appContext().userService.getSingleUser()\<close> returns is a parameter. The thrown
  \<open>Error\<close> is the value \<open>Inl NotBound\<close>.
\<close>

record ambient =
  agentUser :: "User option"
  storeUser :: "User option"
  AUTH :: "string option"

definition runWithUser :: "User \<Rightarrow> ambient \<Rightarrow> ambient" where
  "runWithUser u amb = amb\<lparr>storeUser := Some u\<rparr>"

definition currentUser :: "User \<Rightarrow> ambient \<Rightarrow> context_error + User" where
  "currentUser getSingleUser amb =
     (case agentUser amb of
        Some u \<Rightarrow> Inr u
      | None \<Rightarrow>
          (case storeUser amb of
             None \<Rightarrow> if isSingleUser (AUTH amb) then Inr getSingleUser else Inl NotBound
           | Some u \<Rightarrow> Inr u))"


section \<open>Composite LLM with fallbacks: \<open>FastMediumLLM\<close>\<close>

text \<open>
  A message's content is a string or a sequence of parts. \<open>messages.map((m) => m.content).join('\n')\<close>
  coerces each content to a string: a string is itself, an array of part objects prints as
  \<open>[object Object]\<close> once per part, separated by commas.
\<close>

datatype part = Part string string

datatype content = Text string | Parts "part list"

record LlmMessage =
  role :: string
  content :: content

fun join :: "string \<Rightarrow> string list \<Rightarrow> string" where
  "join sep [] = []"
| "join sep [x] = x"
| "join sep (x # y # ys) = x @ sep @ join sep (y # ys)"


















section \<open>Agent state store: \<open>FirestoreAgentStateService\<close>\<close>

text \<open>
  The fields of an agent context that the store's operations read. \<open>parentAgentId\<close> is
  optional; an absent \<open>childAgents\<close> is the empty list (the source reads it through
  \<open>?? []\<close> and \<open>|| []\<close>). \<open>serializeContext\<close> and \<open>deserializeAgentContext\<close> are not
  among the sources; the stored document is taken to hold these fields as they are.
\<close>

record AgentContext =
  agentId :: string
  parentAgentId :: "string option"
  childAgents :: "string list"
  user :: User
  state :: string
  lastUpdate :: int
  name :: string

text \<open>The collection \<open>AgentContext\<close>: documents by document id.\<close>

type_synonym agent_store = "(string \<times> AgentContext) list"

datatype agent_error = ParentMissing string | UserNotBound

datatype 'e completion = Done | Thrown 'e

text \<open>JavaScript truthiness of an optional string: absent and the empty string are falsy.\<close>

definition truthy :: "string option \<Rightarrow> bool" where
  "truthy p = (case p of None \<Rightarrow> False | Some v \<Rightarrow> v \<noteq> [])"

text \<open>
  \<open>Array.from(new Set(xs))\<close>: the elements in the order of their first occurrence.
\<close>

definition setToArray :: "string list \<Rightarrow> string list" where
  "setToArray xs = rev (remdups (rev xs))"

text \<open>
  \<open>save\<close>. The two readings of \<open>Date.now()\<close> are the parameters \<open>now\<close> (the saved
  context) and \<open>now'\<close> (the parent's update). With a truthy \<open>parentAgentId\<close> the
  transaction reads the parent, throws when it does not exist (a transaction that throws
  writes nothing), adds the child to the parent's \<open>childAgents\<close> when it is not there
  yet, and sets the child's document. Without a parent the document is set.
\<close>

definition agent_save ::
  "int \<Rightarrow> int \<Rightarrow> AgentContext \<Rightarrow> agent_store \<Rightarrow> agent_error completion \<times> agent_store" where
  "agent_save now now' ctx db =
     (let serialized = ctx\<lparr>lastUpdate := now\<rparr> in
      if truthy (parentAgentId ctx) then
        (let parentId = the (parentAgentId ctx) in
         case map_of db parentId of
           None \<Rightarrow> (Thrown (ParentMissing parentId), db)
         | Some parentData \<Rightarrow>
             (let children = setToArray (childAgents parentData);
                  db1 = (if agentId ctx \<notin> set children
                         then AList.update parentId
                                (parentData\<lparr>childAgents := children @ [agentId ctx], lastUpdate := now'\<rparr>) db
                         else db)
              in (Done, AList.update (agentId ctx) serialized db1)))
      else (Done, AList.update (agentId ctx) serialized db))"

text \<open>\<open>load\<close>: the document under the id, with \<open>agentId\<close> set to the id asked for.\<close>

definition agent_load :: "string \<Rightarrow> agent_store \<Rightarrow> AgentContext option" where
  "agent_load aid db = map_option (\<lambda>d. d\<lparr>agentId := aid\<rparr>) (map_of db aid)"

text \<open>
  \<open>deserializeQuery\<close>: the partial context of the list views. It takes the document id
  as \<open>agentId\<close>, copies \<open>name\<close>, \<open>state\<close> and \<open>lastUpdate\<close>, and makes a minimal user
  that holds the stored user id only. It carries no \<open>parentAgentId\<close> and no \<open>childAgents\<close>.
  (The record has no absent user: for a stored empty user id, where the source gives
  \<open>undefined\<close>, the user has the empty id.)
\<close>

definition deserializeQuery :: "(string \<times> AgentContext) list \<Rightarrow> AgentContext list" where
  "deserializeQuery docs =
     map (\<lambda>(docId, d).
            \<lparr>agentId = docId, parentAgentId = None, childAgents = [],
             user = \<lparr>user_id = user_id (user d), email = []\<rparr>,
             state = state d, lastUpdate = lastUpdate d, name = name d\<rparr>) docs"

definition terminalStates :: "string list" where
  "terminalStates = [''completed'', ''shutdown'', ''timeout'']"

text \<open>
  \<open>listRunning\<close>: the query \<open>where('state', 'not-in', terminalStates).orderBy('state')
  .orderBy('lastUpdate', 'desc')\<close>. Strings are ordered bytewise, as the document store
  orders them; documents equal on both keys keep their order in the collection.
\<close>

definition listRunning :: "agent_store \<Rightarrow> AgentContext list" where
  "listRunning db =
     deserializeQuery
       (sort_key (\<lambda>(docId, d). (state d, - lastUpdate d))
          (filter (\<lambda>(docId, d). state d \<notin> set terminalStates) db))"

text \<open>
  Modelled from the spec: \<open>isExecuting\<close> of \<open>agentContextTypes\<close>, which is not among the
  sources. The specification's executing states are all states but \<open>completed\<close>,
  \<open>shutdown\<close> and \<open>timeout\<close>; the tests of the store take \<open>agent\<close> for executing and
  \<open>completed\<close> for not executing. The operations below take the predicate as a parameter;
  this definition instantiates it in the examples.
\<close>

definition isExecuting :: "AgentContext \<Rightarrow> bool" where
  "isExecuting agent \<longleftrightarrow> state agent \<notin> set terminalStates"

text \<open>
  \<open>delete\<close>. The predicate \<open>isExecuting\<close> is a parameter, and so is what
  \<open>currentUser()\<close> gives. The agents are loaded first; the
  current user is read next (a throw there ends the call before the batch exists); the
  four filters follow; the batch deletes, for each agent kept, the documents of its listed
  children and its own.
\<close>

definition deletable :: "(AgentContext \<Rightarrow> bool) \<Rightarrow> User \<Rightarrow> AgentContext \<Rightarrow> bool" where
  "deletable executing u agent \<longleftrightarrow>
     user_id (user agent) = user_id u \<and> \<not> executing agent \<and> \<not> truthy (parentAgentId agent)"

definition deleteBatch :: "AgentContext list \<Rightarrow> string list" where
  "deleteBatch agents = concat (map (\<lambda>agent. childAgents agent @ [agentId agent]) agents)"

definition commitDeletes :: "string list \<Rightarrow> (string \<times> 'v) list \<Rightarrow> (string \<times> 'v) list" where
  "commitDeletes ks db = filter (\<lambda>(k, v). k \<notin> set ks) db"

definition agent_delete ::
  "(AgentContext \<Rightarrow> bool) \<Rightarrow> context_error + User \<Rightarrow> string list \<Rightarrow> agent_store
     \<Rightarrow> agent_error completion \<times> agent_store" where
  "agent_delete executing cu ids db =
     (let loaded = map (\<lambda>i. agent_load i db) ids in
      case cu of
        Inl e \<Rightarrow> (Thrown UserNotBound, db)
      | Inr u \<Rightarrow>
          (let agents = filter (deletable executing u) (map the (filter (\<lambda>a. a \<noteq> None) loaded))
           in (Done, commitDeletes (deleteBatch agents) db)))"

text \<open>
  The parent/child link property of a store: every stored agent with a (truthy)
  \<open>parentAgentId\<close> is listed in the \<open>childAgents\<close> of the stored document of that parent.
\<close>

definition childLinked :: "agent_store \<Rightarrow> bool" where
  "childLinked db \<longleftrightarrow>
     (\<forall>i \<in> set (map fst db).
        case map_of db i of
          None \<Rightarrow> True
        | Some a \<Rightarrow>
            (truthy (parentAgentId a) \<longrightarrow>
               (case map_of db (the (parentAgentId a)) of
                  None \<Rightarrow> False
                | Some p \<Rightarrow> i \<in> set (childAgents p))))"

text \<open>
  The context to be saved lists, in its own \<open>childAgents\<close>, every stored agent that names
  it as parent (itself included, should it name itself).
\<close>

definition listsStoredChildren :: "AgentContext \<Rightarrow> agent_store \<Rightarrow> bool" where
  "listsStoredChildren ctx db \<longleftrightarrow>
     (\<forall>i \<in> set (map fst db).
        case map_of db i of
          None \<Rightarrow> True
        | Some a \<Rightarrow>
            (i \<noteq> agentId ctx \<and> parentAgentId a = Some (agentId ctx)
               \<longrightarrow> i \<in> set (childAgents ctx))) \<and>
     (parentAgentId ctx = Some (agentId ctx) \<longrightarrow> agentId ctx \<in> set (childAgents ctx))"

text \<open>
  The stored agents of the examples: a document of an agent without parent and children,
  and a store of four of them.
\<close>

definition storedAgent :: "string \<Rightarrow> string \<Rightarrow> string \<Rightarrow> int \<Rightarrow> string \<Rightarrow> AgentContext" where
  "storedAgent i n s t u =
     \<lparr>agentId = i, parentAgentId = None, childAgents = [],
      user = \<lparr>user_id = u, email = u @ ''@example.com''\<rparr>, state = s, lastUpdate = t, name = n\<rparr>"

definition exampleAgents :: agent_store where
  "exampleAgents =
     [(''a1'', storedAgent ''a1'' ''first'' ''agent'' 5 ''u''),
      (''a2'', storedAgent ''a2'' ''second'' ''completed'' 6 ''u''),
      (''a3'', storedAgent ''a3'' ''third'' ''error'' 7 ''v''),
      (''a4'', storedAgent ''a4'' ''fourth'' ''agent'' 9 ''u'')]"
section \<open>JSON values and \<open>estimateSize\<close>\<close>

text \<open>
  The data the stores hold: JSON values. A string is the list of its UTF-8 bytes, so that
  \<open>length\<close> is \<open>Buffer.byteLength(_, 'utf8')\<close>; numbers are integers; an object is the list
  of its properties in order (a property never holds \<open>undefined\<close>: such a property is left out,
  as \<open>JSON.stringify\<close> leaves it out).
\<close>

datatype json =
    JNull
  | JBool bool
  | JInt int
  | JStr string
  | JArr "json list"
  | JObj "(string \<times> json) list"

text \<open>Decimal digits of a natural number, and of an integer.\<close>

definition digit :: "nat \<Rightarrow> char" where
  "digit d = char_of (48 + d)"

fun decimal :: "nat \<Rightarrow> string" where
  "decimal n = (if n < 10 then [digit n] else decimal (n div 10) @ [digit (n mod 10)])"

declare decimal.simps [simp del]

definition showInt :: "int \<Rightarrow> string" where
  "showInt i = (if i < 0 then CHR ''-'' # decimal (nat (- i)) else decimal (nat i))"

text \<open>
  \<open>JSON.stringify\<close> on a string: the quotation mark and the backslash are escaped with a
  backslash, backspace, tab, line feed, form feed and carriage return have two-character
  escapes, any other control character below \<open>0x20\<close> is written \<open>\u00XX\<close>, and every other
  byte stands for itself.
\<close>

definition hexDigit :: "nat \<Rightarrow> char" where
  "hexDigit d = (if d < 10 then char_of (48 + d) else char_of (87 + d))"

definition escapeChar :: "char \<Rightarrow> string" where
  "escapeChar c =
     (if c = CHR 0x22 then [CHR 0x5C, CHR 0x22]
      else if c = CHR 0x5C then [CHR 0x5C, CHR 0x5C]
      else if c = CHR 0x08 then [CHR 0x5C, CHR ''b'']
      else if c = CHR 0x09 then [CHR 0x5C, CHR ''t'']
      else if c = CHR 0x0A then [CHR 0x5C, CHR ''n'']
      else if c = CHR 0x0C then [CHR 0x5C, CHR ''f'']
      else if c = CHR 0x0D then [CHR 0x5C, CHR ''r'']
      else if (of_char c :: nat) < 32 then
        [CHR 0x5C, CHR ''u'', CHR ''0'', CHR ''0'',
         hexDigit (of_char c div 16), hexDigit (of_char c mod 16)]
      else [c])"

definition quote :: "string \<Rightarrow> string" where
  "quote s = CHR 0x22 # concat (map escapeChar s) @ [CHR 0x22]"

fun stringify :: "json \<Rightarrow> string" where
  "stringify JNull = ''null''"
| "stringify (JBool b) = (if b then ''true'' else ''false'')"
| "stringify (JInt i) = showInt i"
| "stringify (JStr s) = quote s"
| "stringify (JArr xs) = ''['' @ join '','' (map stringify xs) @ '']''"
| "stringify (JObj kvs) =
     ''{'' @ join '','' (map (\<lambda>kv. quote (fst kv) @ '':'' @ stringify (snd kv)) kvs) @ ''}''"

text \<open>\<open>estimateSize\<close>: \<open>Buffer.byteLength(JSON.stringify(data), 'utf8')\<close>.\<close>

definition estimateSize :: "json \<Rightarrow> nat" where
  "estimateSize data = length (stringify data)"

text \<open>
  The same number computed without building the string; \<open>estimateSize_jsonBytes\<close> below
  proves the two equal.
\<close>

definition escapeBytes :: "char \<Rightarrow> nat" where
  "escapeBytes c =
     (if c \<in> {CHR 0x22, CHR 0x5C, CHR 0x08, CHR 0x09, CHR 0x0A, CHR 0x0C, CHR 0x0D} then 2
      else if (of_char c :: nat) < 32 then 6 else 1)"

definition quoteBytes :: "string \<Rightarrow> nat" where
  "quoteBytes s = 2 + sum_list (map escapeBytes s)"

definition joinBytes :: "nat \<Rightarrow> nat list \<Rightarrow> nat" where
  "joinBytes sep ns = sum_list ns + sep * (length ns - 1)"

fun jsonBytes :: "json \<Rightarrow> nat" where
  "jsonBytes JNull = 4"
| "jsonBytes (JBool b) = (if b then 4 else 5)"
| "jsonBytes (JInt i) = length (showInt i)"
| "jsonBytes (JStr s) = quoteBytes s"
| "jsonBytes (JArr xs) = 2 + joinBytes 1 (map jsonBytes xs)"
| "jsonBytes (JObj kvs) =
     2 + joinBytes 1 (map (\<lambda>kv. quoteBytes (fst kv) + 1 + jsonBytes (snd kv)) kvs)"

text \<open>Reading a decimal numeral back.\<close>

definition undecimal :: "string \<Rightarrow> nat" where
  "undecimal s = foldl (\<lambda>a c. 10 * a + (of_char c - 48)) 0 s"

section \<open>LLM call store: \<open>FirestoreLlmCallService\<close>\<close>

text \<open>
  A document is the list of its fields; the collection \<open>LlmCall\<close> lists its documents by
  document id. A batch is a list of writes, committed in order.
\<close>

type_synonym doc = "(string \<times> json) list"

type_synonym llm_store = "(string \<times> doc) list"

datatype batch_write = SetDoc string doc bool | DeleteDoc string

text \<open>
  \<open>set(data, {merge})\<close>: without \<open>merge\<close> the document is replaced; with \<open>merge\<close> the fields
  of \<open>data\<close> replace the fields of the same name and the other fields stay (no field written
  here holds a map, so the merge is never nested).
\<close>

definition setDoc :: "string \<Rightarrow> doc \<Rightarrow> bool \<Rightarrow> llm_store \<Rightarrow> llm_store" where
  "setDoc docId data merge db =
     (if merge then
        AList.update docId (AList.merge (case map_of db docId of None \<Rightarrow> [] | Some old \<Rightarrow> old) data) db
      else AList.update docId data db)"

fun applyWrite :: "batch_write \<Rightarrow> llm_store \<Rightarrow> llm_store" where
  "applyWrite (SetDoc docId data merge) db = setDoc docId data merge db"
| "applyWrite (DeleteDoc docId) db = commitDeletes [docId] db"

definition commit :: "batch_write list \<Rightarrow> llm_store \<Rightarrow> llm_store" where
  "commit batch db = fold applyWrite batch db"

definition MAX_DOC_SIZE :: nat where
  "MAX_DOC_SIZE = 1000000"

datatype llmcall_error = MissingId | MessageTooLarge | NoCurrentUser

text \<open>A chunk document and its document id \<open>`LlmCall/${llmCallId}-${currentChunkIndex}`\<close>.\<close>

definition chunkData :: "string \<Rightarrow> nat \<Rightarrow> json list \<Rightarrow> doc" where
  "chunkData llmCallId chunkIndex msgs =
     [(''llmCallId'', JStr llmCallId), (''chunkIndex'', JInt (int chunkIndex)), (''messages'', JArr msgs)]"

definition chunkDocId :: "string \<Rightarrow> nat \<Rightarrow> string" where
  "chunkDocId llmCallId chunkIndex = llmCallId @ ''-'' @ decimal chunkIndex"

text \<open>
  The packing loop of \<open>_saveOrUpdateLlmCall\<close>. Its state is \<open>currentChunkIndex\<close>,
  \<open>currentChunkMessages\<close>, the batch and \<open>mainDocData.chunkCount\<close>; the variables
  \<open>messageSize\<close> and \<open>currentChunkSize\<close> of the source are written and never read.
\<close>

fun chunkLoop ::
  "string \<Rightarrow> json list \<Rightarrow> nat \<Rightarrow> json list \<Rightarrow> batch_write list \<Rightarrow> nat
     \<Rightarrow> nat \<times> json list \<times> batch_write list \<times> nat" where
  "chunkLoop llmCallId [] currentChunkIndex currentChunkMessages batch chunkCount =
     (currentChunkIndex, currentChunkMessages, batch, chunkCount)"
| "chunkLoop llmCallId (message # rest) currentChunkIndex currentChunkMessages batch chunkCount =
     (let potentialChunkSize =
            estimateSize (JObj (chunkData llmCallId currentChunkIndex (currentChunkMessages @ [message])))
      in if potentialChunkSize \<ge> MAX_DOC_SIZE \<and> currentChunkMessages \<noteq> [] then
           chunkLoop llmCallId rest (currentChunkIndex + 1) [message]
             (batch @ [SetDoc (chunkDocId llmCallId currentChunkIndex)
                         (chunkData llmCallId currentChunkIndex currentChunkMessages) False])
             (chunkCount + 1)
         else
           chunkLoop llmCallId rest currentChunkIndex (currentChunkMessages @ [message]) batch chunkCount)"

text \<open>
  The chunked branch after the single-message check: the loop, the final chunk, then the
  main document (without messages) with the final \<open>chunkCount\<close>.
\<close>

definition chunkedBatch :: "string \<Rightarrow> doc \<Rightarrow> json list \<Rightarrow> bool \<Rightarrow> batch_write list" where
  "chunkedBatch llmCallId dataToSave msgs merge =
     (case chunkLoop llmCallId msgs 1 [] [] 0 of
        (currentChunkIndex, currentChunkMessages, batch, chunkCount) \<Rightarrow>
          (let (batch', chunkCount') =
                 (if currentChunkMessages \<noteq> [] then
                    (batch @ [SetDoc (chunkDocId llmCallId currentChunkIndex)
                                (chunkData llmCallId currentChunkIndex currentChunkMessages) False],
                     chunkCount + 1)
                  else (batch, chunkCount))
           in batch' @ [SetDoc llmCallId
                          (AList.update ''chunkCount'' (JInt (int chunkCount')) dataToSave) merge]))"

text \<open>
  \<open>_saveOrUpdateLlmCall\<close>. A throw leaves the store as it was: the single-message check
  comes before the batch is built, and the batch is committed as a whole.
\<close>

definition saveOrUpdateLlmCall ::
  "string \<Rightarrow> doc \<Rightarrow> json list \<Rightarrow> bool \<Rightarrow> llm_store \<Rightarrow> llmcall_error completion \<times> llm_store" where
  "saveOrUpdateLlmCall llmCallId dataToSave msgs merge db =
     (let estimatedSize = estimateSize (JObj (AList.update ''messages'' (JArr msgs) dataToSave)) in
      if estimatedSize < MAX_DOC_SIZE then
        (let finalData = AList.update ''chunkCount'' (JInt 0)
                           (AList.update ''messages'' (JArr msgs) dataToSave)
         in (Done, setDoc llmCallId finalData merge db))
      else if \<exists>message \<in> set msgs.
                estimateSize (JObj (chunkData llmCallId 1 [message])) > MAX_DOC_SIZE then
        (Thrown MessageTooLarge, db)
      else (Done, commit (chunkedBatch llmCallId dataToSave msgs merge) db))"

text \<open>
  An \<open>LlmCall\<close> as \<open>saveResponse\<close> receives it: the properties the function reads by name,
  and \<open>otherFields\<close>, its other properties (\<open>llmId\<close>, \<open>requestTime\<close>, \<open>description\<close>, \<open>cost\<close>, ...).
\<close>

record LlmCall =
  callId :: string
  llmCallId :: "string option"
  userId :: "string option"
  messages :: "json list"
  otherFields :: doc

text \<open>
  \<open>saveResponse\<close>. The key is \<open>llmCall.llmCallId ?? llmCall.id\<close>; an empty key throws.
  \<open>userId\<close> is \<open>llmCall.userId ?? currentUser()?.id\<close>: the current user is read (and may
  throw) only when the call carries no \<open>userId\<close>. \<open>dataToSave\<close> is the call without
  \<open>messages\<close> and \<open>id\<close>, with \<open>llmCallId\<close> and \<open>userId\<close> set.
\<close>

definition callKey :: "LlmCall \<Rightarrow> string" where
  "callKey llmCall = (case llmCallId llmCall of Some k \<Rightarrow> k | None \<Rightarrow> callId llmCall)"

definition responseUserId :: "context_error + User \<Rightarrow> LlmCall \<Rightarrow> context_error + string" where
  "responseUserId cu llmCall =
     (case userId llmCall of
        Some uid \<Rightarrow> Inr uid
      | None \<Rightarrow> (case cu of Inl e \<Rightarrow> Inl e | Inr u \<Rightarrow> Inr (user_id u)))"

definition responseData :: "string \<Rightarrow> LlmCall \<Rightarrow> doc" where
  "responseData uid llmCall =
     AList.update ''userId'' (JStr uid)
       (AList.update ''llmCallId'' (JStr (callKey llmCall)) (otherFields llmCall))"

definition saveResponse ::
  "context_error + User \<Rightarrow> LlmCall \<Rightarrow> llm_store \<Rightarrow> llmcall_error completion \<times> llm_store" where
  "saveResponse cu llmCall db =
     (if callKey llmCall = [] then (Thrown MissingId, db)
      else
        (case responseUserId cu llmCall of
           Inl e \<Rightarrow> (Thrown NoCurrentUser, db)
         | Inr uid \<Rightarrow>
             saveOrUpdateLlmCall (callKey llmCall) (responseData uid llmCall) (messages llmCall) True db))"

text \<open>\<open>a ?? b\<close> on a field that may be absent or \<open>null\<close>.\<close>

definition nullish :: "json option \<Rightarrow> json \<Rightarrow> json" where
  "nullish v d = (case v of None \<Rightarrow> d | Some JNull \<Rightarrow> d | Some x \<Rightarrow> x)"

text \<open>
  \<open>deserialize\<close>: the returned call as an object. A property whose source field is absent
  is left out.
\<close>

definition copyFields :: "string list \<Rightarrow> doc \<Rightarrow> doc" where
  "copyFields ks data =
     concat (map (\<lambda>k. case map_of data k of None \<Rightarrow> [] | Some v \<Rightarrow> [(k, v)]) ks)"

definition deserialize :: "string \<Rightarrow> doc \<Rightarrow> doc" where
  "deserialize docId data =
     [(''id'', JStr docId), (''messages'', nullish (map_of data ''messages'') (JArr []))] @
     copyFields [''cost'', ''description'', ''llmId'', ''requestTime'', ''timeToFirstToken'',
       ''totalTime'', ''agentId'', ''userId'', ''callStack'', ''inputTokens'', ''outputTokens''] data @
     [(''chunkCount'', nullish (map_of data ''chunkCount'') (JInt 0)),
      (''llmCallId'', nullish (map_of data ''llmCallId'') (JStr docId))]"

text \<open>
  The chunk query of \<open>getCall\<close>: \<open>where('llmCallId', '==', callIdFromData)
  .where('chunkIndex', '>', 0).orderBy('chunkIndex', 'asc')\<close>. Documents with the same
  \<open>chunkIndex\<close> come in the order of their document ids.
\<close>

definition chunkIndexOf :: "doc \<Rightarrow> int" where
  "chunkIndexOf d = (case map_of d ''chunkIndex'' of Some (JInt n) \<Rightarrow> n | _ \<Rightarrow> 0)"

definition isChunkOf :: "json \<Rightarrow> doc \<Rightarrow> bool" where
  "isChunkOf callIdFromData d \<longleftrightarrow>
     map_of d ''llmCallId'' = Some callIdFromData \<and> chunkIndexOf d > 0"

definition chunksQuery :: "json \<Rightarrow> llm_store \<Rightarrow> (string \<times> doc) list" where
  "chunksQuery callIdFromData db =
     sort_key (\<lambda>(docId, d). (chunkIndexOf d, docId))
       (filter (\<lambda>(docId, d). isChunkOf callIdFromData d) db)"

definition chunkMessages :: "doc \<Rightarrow> json list" where
  "chunkMessages chunkData' = (case map_of chunkData' ''messages'' of Some (JArr ms) \<Rightarrow> ms | _ \<Rightarrow> [])"

definition getCall :: "string \<Rightarrow> llm_store \<Rightarrow> doc option" where
  "getCall llmCallId' db =
     (case map_of db llmCallId' of
        None \<Rightarrow> None
      | Some mainData \<Rightarrow>
          (let chunkCount = nullish (map_of mainData ''chunkCount'') (JInt 0);
               callIdFromData = nullish (map_of mainData ''llmCallId'') (JStr llmCallId')
           in if chunkCount = JInt 0 then Some (deserialize llmCallId' mainData)
              else
                (let chunks = chunksQuery callIdFromData db;
                     allMessages = concat (map (\<lambda>(docId, d). chunkMessages d) chunks)
                 in Some (deserialize llmCallId'
                            (AList.update ''messages'' (JArr allMessages) mainData)))))"

text \<open>The \<open>messages\<close> of what \<open>getCall\<close> returned (\<open>None\<close> when it returned null).\<close>

definition messagesOf :: "doc option \<Rightarrow> json option" where
  "messagesOf r = (case r of None \<Rightarrow> None | Some call \<Rightarrow> map_of call ''messages'')"

text \<open>
  \<open>delete\<close>: the documents whose \<open>llmCallId\<close> field is the id are deleted in one batch;
  when there is none, the document under the id itself is deleted if it exists.
\<close>

definition llmCall_delete :: "string \<Rightarrow> llm_store \<Rightarrow> llm_store" where
  "llmCall_delete llmCallId' db =
     (let docs = filter (\<lambda>(docId, d). map_of d ''llmCallId'' = Some (JStr llmCallId')) db in
      if docs = [] then
        (if map_of db llmCallId' \<noteq> None then commit [DeleteDoc llmCallId'] db else db)
      else commit (map (\<lambda>(docId, d). DeleteDoc docId) docs) db)"

text \<open>
  For the proofs: the writes and the documents of a list of chunks numbered from \<open>i\<close>, the
  number of chunks a save writes, and the hypotheses on the store before a chunked save.
\<close>

fun chunkWrites :: "string \<Rightarrow> nat \<Rightarrow> json list list \<Rightarrow> batch_write list" where
  "chunkWrites k i [] = []"
| "chunkWrites k i (c # cs) = SetDoc (chunkDocId k i) (chunkData k i c) False # chunkWrites k (Suc i) cs"

fun chunkDocs :: "string \<Rightarrow> nat \<Rightarrow> json list list \<Rightarrow> (string \<times> doc) list" where
  "chunkDocs k i [] = []"
| "chunkDocs k i (c # cs) = (chunkDocId k i, chunkData k i c) # chunkDocs k (Suc i) cs"

definition chunkCountOf :: "string \<Rightarrow> json list \<Rightarrow> nat" where
  "chunkCountOf k msgs =
     (case chunkLoop k msgs 1 [] [] 0 of
        (currentChunkIndex, currentChunkMessages, batch, chunkCount) \<Rightarrow>
          if currentChunkMessages \<noteq> [] then chunkCount + 1 else chunkCount)"

definition savedChunked :: "doc \<Rightarrow> json list \<Rightarrow> bool" where
  "savedChunked dataToSave msgs \<longleftrightarrow>
     \<not> estimateSize (JObj (AList.update ''messages'' (JArr msgs) dataToSave)) < MAX_DOC_SIZE"

text \<open>
  Every document already stored that the chunk query for \<open>k\<close> would return, other than the
  one under \<open>k\<close> itself, is one of the \<open>n\<close> chunk documents about to be overwritten.
\<close>

definition staleChunksOverwritten :: "string \<Rightarrow> nat \<Rightarrow> llm_store \<Rightarrow> bool" where
  "staleChunksOverwritten k n db \<longleftrightarrow>
     (\<forall>(j, d) \<in> set db. isChunkOf (JStr k) d \<and> j \<noteq> k \<longrightarrow> j \<in> set (map (chunkDocId k) [1 ..< Suc n]))"

text \<open>The main document as it stands after the write carries no positive \<open>chunkIndex\<close>.\<close>

definition headNotChunk :: "string \<Rightarrow> doc \<Rightarrow> bool \<Rightarrow> llm_store \<Rightarrow> bool" where
  "headNotChunk k dataToSave merge db \<longleftrightarrow>
     chunkIndexOf (if merge then AList.merge (case map_of db k of None \<Rightarrow> [] | Some old \<Rightarrow> old) dataToSave
                   else dataToSave) \<le> 0"

text \<open>
  The hypothesis of the round trip through \<open>saveResponse\<close>: nothing when the record is
  written as a single document; for a chunked record, a well-formed store, a non-empty
  message list, no stale chunk left over, and a main document that is not itself a chunk.
\<close>

definition readsBack :: "context_error + User \<Rightarrow> LlmCall \<Rightarrow> llm_store \<Rightarrow> bool" where
  "readsBack cu llmCall db \<longleftrightarrow>
     (case responseUserId cu llmCall of
        Inl e \<Rightarrow> True
      | Inr uid \<Rightarrow>
          (savedChunked (responseData uid llmCall) (messages llmCall) \<longrightarrow>
             distinct (map fst db) \<and> messages llmCall \<noteq> [] \<and>
             staleChunksOverwritten (callKey llmCall)
               (chunkCountOf (callKey llmCall) (messages llmCall)) db \<and>
             headNotChunk (callKey llmCall) (responseData uid llmCall) True db))"

text \<open>
  A message as the tests build it: a role and a content of \<open>n\<close> one-byte characters
  (\<open>'a'.repeat(n)\<close>).
\<close>

definition largeMessage :: "string \<Rightarrow> nat \<Rightarrow> json" where
  "largeMessage r n = JObj [(''role'', JStr r), (''content'', JStr (replicate n (CHR ''a'')))]"

text \<open>A call of user \<open>u\<close> with the given id and messages.\<close>

definition exampleCall :: "string \<Rightarrow> json list \<Rightarrow> LlmCall" where
  "exampleCall i msgs =
     \<lparr>callId = i, llmCallId = None, userId = Some ''u'', messages = msgs,
      otherFields = [(''llmId'', JStr ''test-llm'')]\<rparr>"

section \<open>Review fingerprint cache: \<open>FirestoreCodeReviewService\<close>\<close>

datatype project_id = ProjectPath string | ProjectNumber int

text \<open>
  \<open>getMRCacheDocId\<close>. In a string id every character outside \<open>[a-zA-Z0-9_-]\<close> becomes
  one underscore. The model's strings are UTF-8 bytes and the source replaces UTF-16 code
  units: a continuation byte gives nothing, the lead byte of a four-byte sequence (two code
  units) gives two underscores, any other byte outside the class gives one.
\<close>

definition inIdClass :: "char \<Rightarrow> bool" where
  "inIdClass c \<longleftrightarrow>
     (let n = (of_char c :: nat) in
      (97 \<le> n \<and> n \<le> 122) \<or> (65 \<le> n \<and> n \<le> 90) \<or> (48 \<le> n \<and> n \<le> 57) \<or> n = 95 \<or> n = 45)"

definition safeChar :: "char \<Rightarrow> string" where
  "safeChar c =
     (let n = (of_char c :: nat) in
      if inIdClass c then [c]
      else if 128 \<le> n \<and> n < 192 then []
      else if 240 \<le> n then ''__''
      else ''_'')"

definition getMRCacheDocId :: "project_id \<Rightarrow> int \<Rightarrow> string" where
  "getMRCacheDocId projectId mrIid =
     (let safeProjectId = (case projectId of
                             ProjectPath s \<Rightarrow> concat (map safeChar s)
                           | ProjectNumber n \<Rightarrow> showInt n)
      in ''proj_'' @ safeProjectId @ ''_mr_'' @ showInt mrIid)"

text \<open>
  The cache in memory (the \<open>Set\<close> is the list of its elements in insertion order) and the
  stored document, which either has the expected shape or not.
\<close>

record MergeRequestFingerprintCache =
  lastUpdated :: int
  fingerprints :: "string list"

datatype cache_doc = CacheDoc int "string list" | MalformedDoc

type_synonym cache_store = "(string \<times> cache_doc) list"

definition EMPTY_CACHE :: MergeRequestFingerprintCache where
  "EMPTY_CACHE = \<lparr>lastUpdated = 0, fingerprints = []\<rparr>"

definition getMergeRequestReviewCache ::
  "project_id \<Rightarrow> int \<Rightarrow> cache_store \<Rightarrow> MergeRequestFingerprintCache" where
  "getMergeRequestReviewCache projectId mrIid db =
     (case map_of db (getMRCacheDocId projectId mrIid) of
        None \<Rightarrow> EMPTY_CACHE
      | Some (CacheDoc l fs) \<Rightarrow> \<lparr>lastUpdated = l, fingerprints = setToArray fs\<rparr>
      | Some MalformedDoc \<Rightarrow> EMPTY_CACHE)"

text \<open>
  \<open>updateMergeRequestReviewCache\<close> overwrites the document and sets \<open>lastUpdated\<close> to
  \<open>Date.now()\<close>, the parameter \<open>nowMillis\<close>.
\<close>

definition updateMergeRequestReviewCache ::
  "int \<Rightarrow> project_id \<Rightarrow> int \<Rightarrow> MergeRequestFingerprintCache \<Rightarrow> cache_store \<Rightarrow> cache_store" where
  "updateMergeRequestReviewCache nowMillis projectId mrIid cacheObject db =
     AList.update (getMRCacheDocId projectId mrIid)
       (CacheDoc nowMillis (fingerprints cacheObject)) db"


section \<open>Code review engine: \<open>GitLabCodeReview\<close>\<close>

record MrDiff =
  new_path :: string
  old_path :: string
  diff :: string
  deleted_file :: bool

record CodeReviewConfig =
  config_id :: string
  title :: string
  enabled :: bool
  description :: string
  fileExtensions_include :: "string list"
  requires_text :: "string list"
  projectPaths :: "string list"

datatype review_error = DiffHeaderUnparseable | LlmFailed string | TypeError | PostFailed string

text \<open>
  A line number is a JavaScript number: a non-negative integer that a double holds, or
  \<open>Infinity\<close> (\<open>parseInt\<close> of a long enough numeral).
\<close>

datatype number = Num nat | Infinity

text \<open>
  What the engine consumes from outside: the SHA-256 digest, \<open>micromatch.isMatch\<close>, the
  answer of \<open>llms().medium.generateJson\<close> for a rule and a code (\<open>Inl\<close> when it throws), the
  posting of a review's comments to the merge request (it gives the discussions \<open>'g\<close>
  afterwards and, when the loop over the comments throws, the error), and the comparison
  \<open>x > 0\<close> for a \<open>length\<close> property that is not a number. The last three fields are the
  arithmetic of doubles where it is not that of the integers: \<open>parseInt(s, 10)\<close> on a
  numeral above \<open>2^53\<close>, the increment of a number from \<open>2^53\<close> on, and the conversion to a
  string of a number above \<open>2^53\<close>.
\<close>

record 'g review_env =
  sha256 :: "string \<Rightarrow> string"
  isMatch :: "string \<Rightarrow> string list \<Rightarrow> bool"
  generateJson :: "CodeReviewConfig \<Rightarrow> string \<Rightarrow> string + json"
  postComments :: "string \<Rightarrow> json option \<Rightarrow> MrDiff \<Rightarrow> CodeReviewConfig \<Rightarrow> 'g \<Rightarrow> string option \<times> 'g"
  coercedGtZero :: "json \<Rightarrow> bool"
  parseIntBeyond :: "string \<Rightarrow> number"
  incrementBeyond :: "nat \<Rightarrow> number"
  toStringBeyond :: "nat \<Rightarrow> string"

text \<open>
  \<open>parseInt(digits, 10)\<close> on a string of decimal digits, \<open>n++\<close> and \<open>`${n}`\<close>. Up to
  \<open>2^53 = 9007199254740992\<close> every integer is a double, and the three are exact.
\<close>

definition maxExact :: int where
  "maxExact = 9007199254740992"

definition parseInt :: "'g review_env \<Rightarrow> string \<Rightarrow> number" where
  "parseInt env digits =
     (let v = undecimal digits in if int v \<le> maxExact then Num v else parseIntBeyond env digits)"

definition increment :: "'g review_env \<Rightarrow> number \<Rightarrow> number" where
  "increment env n =
     (case n of
        Num v \<Rightarrow> if int v < maxExact then Num (v + 1) else incrementBeyond env v
      | Infinity \<Rightarrow> Infinity)"

definition numberToString :: "'g review_env \<Rightarrow> number \<Rightarrow> string" where
  "numberToString env n =
     (case n of
        Num v \<Rightarrow> if int v \<le> maxExact then decimal v else toStringBeyond env v
      | Infinity \<Rightarrow> ''Infinity'')"

text \<open>\<open>s.split(c)\<close> for a one-character separator: never empty, \<open>''.split(c)\<close> is \<open>['']\<close>.\<close>

fun splitOn :: "char \<Rightarrow> string \<Rightarrow> string list" where
  "splitOn c [] = [[]]"
| "splitOn c (x # xs) =
     (if x = c then [] # splitOn c xs
      else (case splitOn c xs of [] \<Rightarrow> [[x]] | y # ys \<Rightarrow> (x # y) # ys))"

definition isDigit :: "char \<Rightarrow> bool" where
  "isDigit c \<longleftrightarrow> (let n = (of_char c :: nat) in 48 \<le> n \<and> n \<le> 57)"

text \<open>
  The header pattern \<open>/^@@ -\d+(?:,\d+)? \+(\d+)(?:,\d+)? @@/m\<close> at one position: the
  captured digits, if a match starts there. \<open>digitsThen\<close> reads \<open>\d+\<close> and gives the digits
  and the rest; \<open>optCount\<close> skips \<open>(?:,\d+)?\<close>.
\<close>

definition digitsThen :: "string \<Rightarrow> (string \<times> string) option" where
  "digitsThen s =
     (let ds = takeWhile isDigit s in if ds = [] then None else Some (ds, dropWhile isDigit s))"

definition optCount :: "string \<Rightarrow> string" where
  "optCount s =
     (case s of
        c # rest \<Rightarrow>
          (if c = CHR '','' then (case digitsThen rest of None \<Rightarrow> s | Some (ds, rest') \<Rightarrow> rest')
           else s)
      | [] \<Rightarrow> s)"

definition matchHeader :: "string \<Rightarrow> string option" where
  "matchHeader line =
     (if prefix ''@@ -'' line then
        (case digitsThen (drop 4 line) of
           None \<Rightarrow> None
         | Some (ds1, r1) \<Rightarrow>
             (let r2 = optCount r1 in
              if prefix '' +'' r2 then
                (case digitsThen (drop 2 r2) of
                   None \<Rightarrow> None
                 | Some (ds2, r3) \<Rightarrow>
                     (if prefix '' @@'' (optCount r3) then Some ds2 else None))
              else None))
      else None)"

text \<open>
  \<open>mrDiff.diff.match(...)\<close>: the first position, from the left, at which \<open>^\<close> holds and
  the pattern matches. With the flag \<open>m\<close>, \<open>^\<close> holds at the start of the string and after
  each line terminator: line feed, carriage return, \<open>U+2028\<close> and \<open>U+2029\<close> (in UTF-8 the
  bytes \<open>E2 80 A8\<close> and \<open>E2 80 A9\<close>). \<open>before\<close> is the text before the position, reversed.
\<close>

definition atLineStart :: "string \<Rightarrow> bool" where
  "atLineStart before \<longleftrightarrow>
     before = [] \<or>
     prefix [CHR 0x0A] before \<or>
     prefix [CHR 0x0D] before \<or>
     prefix [CHR 0xA8, CHR 0x80, CHR 0xE2] before \<or>
     prefix [CHR 0xA9, CHR 0x80, CHR 0xE2] before"

fun headerSearch :: "string \<Rightarrow> string \<Rightarrow> string option" where
  "headerSearch before [] = None"
| "headerSearch before (c # rest) =
     (case (if atLineStart before then matchHeader (c # rest) else None) of
        Some digits \<Rightarrow> Some digits
      | None \<Rightarrow> headerSearch (c # before) rest)"

definition headerMatch :: "string \<Rightarrow> string option" where
  "headerMatch s = headerSearch [] s"

text \<open>
  \<open>getBlankLineCommenter\<close>: the comment that carries a line number, by the extension
  (\<open>fileName.split('.').pop()\<close>); \<open>toString\<close> is the conversion of the number in the
  template string.
\<close>

definition getBlankLineCommenter :: "(number \<Rightarrow> string) \<Rightarrow> string \<Rightarrow> number \<Rightarrow> string" where
  "getBlankLineCommenter toString fileName lineNumber =
     (let extension = last (splitOn (CHR ''.'') fileName) in
      if extension \<in> set [''js'', ''ts'', ''java'', ''c'', ''cpp'', ''cs'', ''css'', ''php'', ''swift'',
                            ''m'', ''go'', ''kt'', ''kts'', ''groovy'', ''scala'', ''dart'']
        then ''// '' @ toString lineNumber
      else if extension \<in> set [''py'', ''sh'', ''pl'', ''rb'', ''yaml'', ''yml'', ''tf'', ''r'']
        then ''# '' @ toString lineNumber
      else if extension \<in> set [''html'', ''xml'', ''jsx'']
        then ''<!-- '' @ toString lineNumber @ '' -->''
      else if extension = ''sql'' then ''-- '' @ toString lineNumber
      else if extension = ''ini'' then ''; '' @ toString lineNumber
      else if extension \<in> set [''hs'', ''lsp'', ''scm''] then ''-- '' @ toString lineNumber
      else [])"

text \<open>
  The loop of \<open>prepareCodeForReview\<close> over the lines after the header; \<open>next\<close> is
  \<open>currentLineNumber++\<close>.
\<close>

fun codeLines ::
  "(number \<Rightarrow> number) \<Rightarrow> (number \<Rightarrow> string) \<Rightarrow> number \<Rightarrow> string list \<Rightarrow> string list \<times> string list" where
  "codeLines next lineCommenter currentLineNumber [] = ([], [])"
| "codeLines next lineCommenter currentLineNumber (line # rest) =
     (if \<not> prefix ''-'' line then
        (let lineContent = drop 1 line;
             (linesWithNumbers, linesWithoutNumbers) =
               codeLines next lineCommenter (next currentLineNumber) rest
         in (lineCommenter currentLineNumber # lineContent # linesWithNumbers,
             lineContent # linesWithoutNumbers))
      else codeLines next lineCommenter currentLineNumber rest)"

text \<open>
  \<open>prepareCodeForReview\<close>: \<open>(codeWithLines, codeWithoutLines)\<close>, or the throw when no header
  is found. The lines are those of \<open>split('\n')\<close>, whatever the position of the header
  match.
\<close>

definition findIndexStartsWith :: "string \<Rightarrow> string list \<Rightarrow> nat option" where
  "findIndexStartsWith p ls =
     (let n = length (takeWhile (\<lambda>l. \<not> prefix p l) ls) in if n < length ls then Some n else None)"

definition prepareCodeForReview :: "'g review_env \<Rightarrow> MrDiff \<Rightarrow> review_error + (string \<times> string)" where
  "prepareCodeForReview env mrDiff =
     (case headerMatch (diff mrDiff) of
        None \<Rightarrow> Inl DiffHeaderUnparseable
      | Some digits \<Rightarrow>
          (let parsed = parseInt env digits;
               actualStartLine = (if parsed = Num 0 then Num 1 else parsed);
               lineCommenter = getBlankLineCommenter (numberToString env) (new_path mrDiff);
               diffLines = splitOn (CHR 0x0A) (diff mrDiff);
               diffContentStartIndex =
                 (case findIndexStartsWith ''@@'' diffLines of None \<Rightarrow> 0 | Some i \<Rightarrow> i + 1);
               (linesWithNumbers, linesWithoutNumbers) =
                 codeLines (increment env) lineCommenter actualStartLine
                   (drop diffContentStartIndex diffLines)
           in Inr (join [CHR 0x0A] linesWithNumbers, join [CHR 0x0A] linesWithoutNumbers)))"

text \<open>
  \<open>shouldApplyCodeReview\<close>; \<open>micromatch.isMatch\<close> is the parameter \<open>matches\<close>.
\<close>

definition shouldApplyCodeReview ::
  "(string \<Rightarrow> string list \<Rightarrow> bool) \<Rightarrow> CodeReviewConfig \<Rightarrow> MrDiff \<Rightarrow> string \<Rightarrow> bool" where
  "shouldApplyCodeReview matches codeReview d projectPath =
     (if \<not> enabled codeReview then False
      else if projectPaths codeReview \<noteq> [] \<and> \<not> matches projectPath (projectPaths codeReview) then False
      else
        (let hasMatchingExtension =
               list_ex (\<lambda>extension. suffix extension (new_path d)) (fileExtensions_include codeReview);
             hasRequiredText = list_ex (\<lambda>text. sublist text (diff d)) (requires_text codeReview)
         in hasMatchingExtension \<and> hasRequiredText))"

text \<open>
  \<open>generateReviewUnitFingerprint\<close>, called with \<open>ruleVersion = undefined\<close>; the SHA-256
  digest in hexadecimal is the parameter \<open>digest\<close> (it is \<open>hashString\<close> as well).
\<close>

definition showProjectId :: "project_id \<Rightarrow> string" where
  "showProjectId p = (case p of ProjectPath s \<Rightarrow> s | ProjectNumber n \<Rightarrow> showInt n)"

definition generateReviewUnitFingerprint ::
  "(string \<Rightarrow> string) \<Rightarrow> project_id \<Rightarrow> int \<Rightarrow> string \<Rightarrow> string \<Rightarrow> string \<Rightarrow> string" where
  "generateReviewUnitFingerprint digest projectId mrIid filePath ruleId diffContentHash =
     digest (join ''|''
       [''prj:'' @ showProjectId projectId, ''mr:'' @ showInt mrIid, ''file:'' @ filePath,
        ''rule:'' @ ruleId, ''ruleVer:'' @ ''v0'', ''content:'' @ diffContentHash])"

text \<open>
  JavaScript on a value that may be \<open>undefined\<close> (\<open>None\<close>): truthiness, \<open>Array.isArray\<close>,
  and reading a property (\<open>undefined\<close> on anything but an object that has it).
\<close>

definition jsTruthy :: "json option \<Rightarrow> bool" where
  "jsTruthy v =
     (case v of
        None \<Rightarrow> False
      | Some JNull \<Rightarrow> False
      | Some (JBool b) \<Rightarrow> b
      | Some (JInt n) \<Rightarrow> n \<noteq> 0
      | Some (JStr s) \<Rightarrow> s \<noteq> []
      | Some (JArr xs) \<Rightarrow> True
      | Some (JObj kvs) \<Rightarrow> True)"

definition isArray :: "json option \<Rightarrow> bool" where
  "isArray v = (case v of Some (JArr xs) \<Rightarrow> True | _ \<Rightarrow> False)"

definition property :: "json \<Rightarrow> string \<Rightarrow> json option" where
  "property v p = (case v of JObj kvs \<Rightarrow> map_of kvs p | _ \<Rightarrow> None)"

record DiffReview =
  code :: string
  comments :: "json option"
  mrDiff :: MrDiff
  reviewConfig :: CodeReviewConfig

text \<open>
  \<open>reviewDiff\<close>. The response is read as the source reads it: the guard is
  \<open>Array.isArray(!reviewComments?.violations)\<close>, and \<open>reviewComments.violations\<close> throws a
  \<open>TypeError\<close> on \<open>null\<close>. \<open>Inr None\<close> is the returned \<open>null\<close>. The decorator
  \<open>cacheRetry\<close> is not among the sources and is left out.
\<close>

definition reviewDiff ::
  "'g review_env \<Rightarrow> MrDiff \<Rightarrow> CodeReviewConfig \<Rightarrow> string \<Rightarrow> review_error + DiffReview option" where
  "reviewDiff env d codeReview currentCode =
     (case generateJson env codeReview currentCode of
        Inl e \<Rightarrow> Inl (LlmFailed e)
      | Inr reviewComments \<Rightarrow>
          (if isArray (Some (JBool (\<not> jsTruthy (property reviewComments ''violations'')))) then Inr None
           else if reviewComments = JNull then Inl TypeError
           else Inr (Some \<lparr>code = currentCode, comments = property reviewComments ''violations'',
                            mrDiff = d, reviewConfig = codeReview\<rparr>)))"

record ReviewUnit =
  unit_config :: CodeReviewConfig
  unit_diff :: MrDiff
  codeWithLinesForLLM :: string
  codeHashWithoutLines :: string
  fingerprint :: string

text \<open>
  \<open>diff.diff.trim() === ''\<close>: the text consists of white space and line terminators
  only. In UTF-8 these are the six ASCII ones, \<open>U+00A0\<close>, \<open>U+1680\<close>, \<open>U+2000\<close> to
  \<open>U+200A\<close>, \<open>U+2028\<close>, \<open>U+2029\<close>, \<open>U+202F\<close>, \<open>U+205F\<close>, \<open>U+3000\<close> and \<open>U+FEFF\<close>. No
  one of them is a prefix of another, and each has at least one byte, so one step for
  each character of \<open>s\<close> decides \<open>s\<close>.

  The pre-filter of \<open>reviewMergeRequest\<close>: the units of all diffs and rules that apply and
  whose code can be prepared, in the order of the two loops; then those whose fingerprint
  the working cache does not hold.
\<close>

definition whiteSpaces :: "string list" where
  "whiteSpaces =
     [[CHR 0x09], [CHR 0x0A], [CHR 0x0B], [CHR 0x0C], [CHR 0x0D], [CHR 0x20],
      [CHR 0xC2, CHR 0xA0], [CHR 0xE1, CHR 0x9A, CHR 0x80],
      [CHR 0xE2, CHR 0x80, CHR 0x80], [CHR 0xE2, CHR 0x80, CHR 0x81], [CHR 0xE2, CHR 0x80, CHR 0x82],
      [CHR 0xE2, CHR 0x80, CHR 0x83], [CHR 0xE2, CHR 0x80, CHR 0x84], [CHR 0xE2, CHR 0x80, CHR 0x85],
      [CHR 0xE2, CHR 0x80, CHR 0x86], [CHR 0xE2, CHR 0x80, CHR 0x87], [CHR 0xE2, CHR 0x80, CHR 0x88],
      [CHR 0xE2, CHR 0x80, CHR 0x89], [CHR 0xE2, CHR 0x80, CHR 0x8A],
      [CHR 0xE2, CHR 0x80, CHR 0xA8], [CHR 0xE2, CHR 0x80, CHR 0xA9], [CHR 0xE2, CHR 0x80, CHR 0xAF],
      [CHR 0xE2, CHR 0x81, CHR 0x9F], [CHR 0xE3, CHR 0x80, CHR 0x80], [CHR 0xEF, CHR 0xBB, CHR 0xBF]]"

definition stripWhiteSpace :: "string \<Rightarrow> string option" where
  "stripWhiteSpace s =
     (case find (\<lambda>w. prefix w s) whiteSpaces of
        None \<Rightarrow> None
      | Some w \<Rightarrow> Some (drop (length w) s))"

fun blankWithin :: "string \<Rightarrow> string \<Rightarrow> bool" where
  "blankWithin [] s = (s = [])"
| "blankWithin (c # steps) s =
     (if s = [] then True
      else (case stripWhiteSpace s of None \<Rightarrow> False | Some rest \<Rightarrow> blankWithin steps rest))"

definition isBlank :: "string \<Rightarrow> bool" where
  "isBlank s = blankWithin s s"

definition skipDiff :: "MrDiff \<Rightarrow> bool" where
  "skipDiff d \<longleftrightarrow> deleted_file d \<or> diff d = [] \<or> isBlank (diff d)"

definition unitsOfDiff ::
  "'g review_env \<Rightarrow> project_id \<Rightarrow> int \<Rightarrow> string \<Rightarrow> CodeReviewConfig list \<Rightarrow> MrDiff \<Rightarrow> ReviewUnit list" where
  "unitsOfDiff env gitlabProjectId mergeRequestIId projectPath codeReviewConfigs d =
     (if skipDiff d then []
      else concat (map (\<lambda>codeReview.
             if shouldApplyCodeReview (isMatch env) codeReview d projectPath then
               (case prepareCodeForReview env d of
                  Inl e \<Rightarrow> []
                | Inr (codeWithLines, codeWithoutLines) \<Rightarrow>
                    (let codeHash = sha256 env codeWithoutLines in
                     [\<lparr>unit_config = codeReview, unit_diff = d,
                       codeWithLinesForLLM = codeWithLines,
                       codeHashWithoutLines = codeHash,
                       fingerprint = generateReviewUnitFingerprint (sha256 env) gitlabProjectId
                         mergeRequestIId (new_path d) (config_id codeReview) codeHash\<rparr>]))
             else []) codeReviewConfigs))"

definition reviewUnits ::
  "'g review_env \<Rightarrow> project_id \<Rightarrow> int \<Rightarrow> string \<Rightarrow> CodeReviewConfig list \<Rightarrow> MrDiff list \<Rightarrow> ReviewUnit list" where
  "reviewUnits env gitlabProjectId mergeRequestIId projectPath codeReviewConfigs diffs =
     concat (map (unitsOfDiff env gitlabProjectId mergeRequestIId projectPath codeReviewConfigs) diffs)"

definition reviewUnitsToProcess ::
  "MergeRequestFingerprintCache \<Rightarrow> ReviewUnit list \<Rightarrow> ReviewUnit list" where
  "reviewUnitsToProcess workingCacheObject units =
     filter (\<lambda>u. fingerprint u \<notin> set (fingerprints workingCacheObject)) units"

text \<open>
  One review action: \<open>reviewDiff\<close> on the unit; \<open>null\<close> and any throw give \<open>null\<close>, which
  the engine filters out.
\<close>

definition codeReviewAction :: "'g review_env \<Rightarrow> ReviewUnit \<Rightarrow> (DiffReview \<times> string) option" where
  "codeReviewAction env u =
     (case reviewDiff env (unit_diff u) (unit_config u) (codeWithLinesForLLM u) of
        Inr (Some reviewResult) \<Rightarrow> Some (reviewResult, fingerprint u)
      | Inr None \<Rightarrow> None
      | Inl e \<Rightarrow> None)"

text \<open>
  \<open>reviewResult.comments && reviewResult.comments.length > 0\<close>. The length of an array or a
  string is a number; an object has the \<open>length\<close> it carries, if any.
\<close>

definition hasComments :: "'g review_env \<Rightarrow> json option \<Rightarrow> bool" where
  "hasComments env c =
     (jsTruthy c \<and>
      (case c of
         Some (JArr xs) \<Rightarrow> xs \<noteq> []
       | Some (JStr s) \<Rightarrow> s \<noteq> []
       | Some (JObj kvs) \<Rightarrow>
           (case map_of kvs ''length'' of
              None \<Rightarrow> False
            | Some JNull \<Rightarrow> False
            | Some (JBool b) \<Rightarrow> b
            | Some (JInt n) \<Rightarrow> n > 0
            | Some v \<Rightarrow> coercedGtZero env v)
       | _ \<Rightarrow> False))"

text \<open>
  The loop over the results, in order: a review with comments is posted; a review without
  is marked clean, its fingerprint added to the working set and the cache marked dirty. A
  throw ends the loop (and the call).
\<close>

definition setAdd :: "string \<Rightarrow> string list \<Rightarrow> string list" where
  "setAdd x xs = (if x \<in> set xs then xs else xs @ [x])"

fun processResults ::
  "'g review_env \<Rightarrow> (DiffReview \<times> string) list \<Rightarrow> string list \<Rightarrow> bool \<Rightarrow> 'g
     \<Rightarrow> review_error completion \<times> string list \<times> bool \<times> 'g" where
  "processResults env [] workingFingerprints cacheNeedsUpdate g =
     (Done, workingFingerprints, cacheNeedsUpdate, g)"
| "processResults env ((reviewResult, fp) # rest) workingFingerprints cacheNeedsUpdate g =
     (if hasComments env (comments reviewResult) then
        (case postComments env (code reviewResult) (comments reviewResult) (mrDiff reviewResult)
                (reviewConfig reviewResult) g of
           (Some e, g') \<Rightarrow> (Thrown (PostFailed e), workingFingerprints, cacheNeedsUpdate, g')
         | (None, g') \<Rightarrow> processResults env rest workingFingerprints cacheNeedsUpdate g')
      else processResults env rest (setAdd fp workingFingerprints) True g)"

text \<open>
  \<open>reviewMergeRequest\<close>, from the loading of the cache on. The merge request, its diffs,
  the rules and the project path are read from GitLab and the rule store before; they are
  the arguments. The result records how the call ended, the number of calls to
  \<open>generateJson\<close>, the cache store and the discussions.
\<close>

record 'g review_result =
  ended :: "review_error completion"
  llmCalls :: nat
  cacheDb :: cache_store
  discussions :: 'g

definition reviewMergeRequest ::
  "'g review_env \<Rightarrow> int \<Rightarrow> project_id \<Rightarrow> int \<Rightarrow> string \<Rightarrow> CodeReviewConfig list \<Rightarrow> MrDiff list
     \<Rightarrow> cache_store \<Rightarrow> 'g \<Rightarrow> 'g review_result" where
  "reviewMergeRequest env nowMillis gitlabProjectId mergeRequestIId projectPath codeReviewConfigs diffs db g =
     (let loadedCacheObject = getMergeRequestReviewCache gitlabProjectId mergeRequestIId db;
          workingCacheObject = loadedCacheObject;
          toProcess = reviewUnitsToProcess workingCacheObject
                        (reviewUnits env gitlabProjectId mergeRequestIId projectPath codeReviewConfigs diffs)
      in if toProcess = [] then
           \<lparr>ended = Done, llmCalls = 0, cacheDb = db, discussions = g\<rparr>
         else
           (let codeReviewResults = map the (filter (\<lambda>r. r \<noteq> None) (map (codeReviewAction env) toProcess))
            in case processResults env codeReviewResults (fingerprints workingCacheObject) False g of
                 (Thrown e, workingFingerprints, cacheNeedsUpdate, g') \<Rightarrow>
                   \<lparr>ended = Thrown e, llmCalls = length toProcess, cacheDb = db, discussions = g'\<rparr>
               | (Done, workingFingerprints, cacheNeedsUpdate, g') \<Rightarrow>
                   \<lparr>ended = Done, llmCalls = length toProcess,
                    cacheDb = (if cacheNeedsUpdate then
                                 updateMergeRequestReviewCache nowMillis gitlabProjectId mergeRequestIId
                                   (workingCacheObject\<lparr>fingerprints := workingFingerprints\<rparr>) db
                               else db),
                    discussions = g'\<rparr>))"

text \<open>
  A unit comes back clean: its review action gives a review, and the review has no
  comments.
\<close>

definition reviewedClean :: "'g review_env \<Rightarrow> ReviewUnit \<Rightarrow> bool" where
  "reviewedClean env u =
     (case codeReviewAction env u of
        None \<Rightarrow> False
      | Some (reviewResult, fp) \<Rightarrow> \<not> hasComments env (comments reviewResult))"

text \<open>
  The example of the specification: merge request 101 of project 123 with one diff of a
  \<open>.ts\<close> file and one enabled rule for it. In the example environment the digest of a
  string is the string in brackets, every project path matches, the language model answers
  every request with the given response, and posting leaves the discussions (here the
  number of posted reviews) one higher. No line number of the example comes near \<open>2^53\<close>,
  so the last three fields are never applied.
\<close>

definition exampleEnv :: "json \<Rightarrow> nat review_env" where
  "exampleEnv response =
     \<lparr>sha256 = (\<lambda>s. ''['' @ s @ '']''),
      isMatch = (\<lambda>p globs. True),
      generateJson = (\<lambda>codeReview currentCode. Inr response),
      postComments = (\<lambda>c cs d r g. (None, Suc g)),
      coercedGtZero = (\<lambda>v. False),
      parseIntBeyond = (\<lambda>s. Infinity),
      incrementBeyond = (\<lambda>v. Num v),
      toStringBeyond = (\<lambda>v. [])\<rparr>"

definition exampleDiff :: MrDiff where
  "exampleDiff =
     \<lparr>new_path = ''src/a.ts'', old_path = ''src/a.ts'',
      diff = ''@@ -1,2 +1,2 @@'' @ [CHR 0x0A] @ '' const a = 1;'' @ [CHR 0x0A] @ ''-var b;'' @
             [CHR 0x0A] @ ''+let b;'',
      deleted_file = False\<rparr>"

definition exampleRule :: CodeReviewConfig where
  "exampleRule =
     \<lparr>config_id = ''r1'', title = ''No var'', enabled = True, description = ''Use let or const'',
      fileExtensions_include = [''.ts''], requires_text = [''b''], projectPaths = []\<rparr>"

definition exampleFingerprint :: string where
  "exampleFingerprint =
     ''[prj:123|mr:101|file:src/a.ts|rule:r1|ruleVer:v0|content:[const a = 1;'' @ [CHR 0x0A] @ ''let b;]]''"

text \<open>An answer of the model that reports one violation, on line 2.\<close>

definition exampleViolations :: json where
  "exampleViolations =
     JObj [(''thinking'', JStr ''var is used''),
           (''violations'', JArr [JObj [(''lineNumber'', JInt 2), (''comment'', JStr ''Use let'')]])]"

section \<open>Properties of the ambient context\<close>

text \<open>
  C9. \<open>currentUser()\<close> returns the agent's user when an agent binding is present; otherwise
  the user bound by \<open>runWithUser\<close>; otherwise, only in single-user mode, the sole user; and
  with no binding outside single-user mode it fails instead of returning a user.
\<close>

theorem currentUser_resolution:
  "(agentUser amb = Some a \<longrightarrow> currentUser su amb = Inr a) \<and>
   (agentUser amb = None \<and> storeUser amb = Some u \<longrightarrow> currentUser su amb = Inr u) \<and>
   (agentUser amb = None \<and> storeUser amb = None \<and> isSingleUser (AUTH amb)
      \<longrightarrow> currentUser su amb = Inr su) \<and>
   (agentUser amb = None \<and> storeUser amb = None \<and> \<not> isSingleUser (AUTH amb)
      \<longrightarrow> currentUser su amb = Inl NotBound) \<and>
   (agentUser amb = None \<longrightarrow> currentUser su (runWithUser u amb) = Inr u)"
  by (simp add: currentUser_def runWithUser_def)

theorem currentUser_resolution_witness:
  "currentUser \<lparr>user_id = ''single'', email = []\<rparr>
     \<lparr>agentUser = Some \<lparr>user_id = ''agent-owner'', email = []\<rparr>,
      storeUser = Some \<lparr>user_id = ''web'', email = []\<rparr>, AUTH = Some ''google_iap''\<rparr>
     = Inr \<lparr>user_id = ''agent-owner'', email = []\<rparr> \<and>
   currentUser \<lparr>user_id = ''single'', email = []\<rparr>
     \<lparr>agentUser = None, storeUser = Some \<lparr>user_id = ''web'', email = []\<rparr>,
      AUTH = Some ''google_iap''\<rparr>
     = Inr \<lparr>user_id = ''web'', email = []\<rparr> \<and>
   currentUser \<lparr>user_id = ''single'', email = []\<rparr>
     \<lparr>agentUser = None, storeUser = None, AUTH = Some ''single_user''\<rparr>
     = Inr \<lparr>user_id = ''single'', email = []\<rparr> \<and>
   currentUser \<lparr>user_id = ''single'', email = []\<rparr>
     \<lparr>agentUser = None, storeUser = None, AUTH = Some ''google_iap''\<rparr>
     = Inl NotBound"
proof -
  let ?su = "\<lparr>user_id = ''single'', email = []\<rparr>"
  let ?a = "\<lparr>user_id = ''agent-owner'', email = []\<rparr>"
  let ?w = "\<lparr>user_id = ''web'', email = []\<rparr>"
  have 1: "agentUser \<lparr>agentUser = Some ?a, storeUser = Some ?w, AUTH = Some ''google_iap''\<rparr> = Some ?a"
    by simp
  have 2: "agentUser \<lparr>agentUser = None, storeUser = Some ?w, AUTH = Some ''google_iap''\<rparr> = None \<and>
           storeUser \<lparr>agentUser = None, storeUser = Some ?w, AUTH = Some ''google_iap''\<rparr> = Some ?w"
    by simp
  have 3: "agentUser \<lparr>agentUser = None, storeUser = None, AUTH = Some ''single_user''\<rparr> = None \<and>
           storeUser \<lparr>agentUser = None, storeUser = None, AUTH = Some ''single_user''\<rparr> = None \<and>
           isSingleUser (AUTH \<lparr>agentUser = None, storeUser = None, AUTH = Some ''single_user''\<rparr>)"
    by (simp add: isSingleUser_def)
  have 4: "agentUser \<lparr>agentUser = None, storeUser = None, AUTH = Some ''google_iap''\<rparr> = None \<and>
           storeUser \<lparr>agentUser = None, storeUser = None, AUTH = Some ''google_iap''\<rparr> = None \<and>
           \<not> isSingleUser (AUTH \<lparr>agentUser = None, storeUser = None, AUTH = Some ''google_iap''\<rparr>)"
    by (simp add: isSingleUser_def)
  from 1 2 3 4
    currentUser_resolution [of "\<lparr>agentUser = Some ?a, storeUser = Some ?w, AUTH = Some ''google_iap''\<rparr>" ?a ?su]
    currentUser_resolution [of "\<lparr>agentUser = None, storeUser = Some ?w, AUTH = Some ''google_iap''\<rparr>" ?a ?su ?w]
    currentUser_resolution [of "\<lparr>agentUser = None, storeUser = None, AUTH = Some ''single_user''\<rparr>" ?a ?su ?w]
    currentUser_resolution [of "\<lparr>agentUser = None, storeUser = None, AUTH = Some ''google_iap''\<rparr>" ?a ?su ?w]
  show ?thesis by blast
qed

section \<open>Properties of the composite LLM\<close>














section \<open>Properties of the agent state store\<close>

subsection \<open>\<open>save\<close> and the parent/child link\<close>

lemma childLinked_iff:
  "childLinked db \<longleftrightarrow>
     (\<forall>i a. map_of db i = Some a \<longrightarrow> truthy (parentAgentId a) \<longrightarrow>
        (\<exists>p. map_of db (the (parentAgentId a)) = Some p \<and> i \<in> set (childAgents p)))"
proof
  assume L: "childLinked db"
  show "\<forall>i a. map_of db i = Some a \<longrightarrow> truthy (parentAgentId a) \<longrightarrow>
        (\<exists>p. map_of db (the (parentAgentId a)) = Some p \<and> i \<in> set (childAgents p))"
  proof (intro allI impI)
    fix i a assume m: "map_of db i = Some a" and t: "truthy (parentAgentId a)"
    from m have "i \<in> set (map fst db)"
      by (metis map_of_eq_None_iff option.distinct(1) set_map)
    with L m t show "\<exists>p. map_of db (the (parentAgentId a)) = Some p \<and> i \<in> set (childAgents p)"
      unfolding childLinked_def by (fastforce split: option.splits)
  qed
next
  assume R: "\<forall>i a. map_of db i = Some a \<longrightarrow> truthy (parentAgentId a) \<longrightarrow>
        (\<exists>p. map_of db (the (parentAgentId a)) = Some p \<and> i \<in> set (childAgents p))"
  show "childLinked db"
    unfolding childLinked_def
  proof (intro ballI)
    fix i assume "i \<in> set (map fst db)"
    show "case map_of db i of None \<Rightarrow> True
          | Some a \<Rightarrow> truthy (parentAgentId a) \<longrightarrow>
              (case map_of db (the (parentAgentId a)) of None \<Rightarrow> False
               | Some p \<Rightarrow> i \<in> set (childAgents p))"
    proof (cases "map_of db i")
      case None
      then show ?thesis by simp
    next
      case (Some a)
      show ?thesis
      proof (cases "truthy (parentAgentId a)")
        case True
        with R Some obtain p where "map_of db (the (parentAgentId a)) = Some p" "i \<in> set (childAgents p)"
          by blast
        with Some show ?thesis by simp
      next
        case False
        with Some show ?thesis by simp
      qed
    qed
  qed
qed

lemma listsStoredChildren_iff:
  "listsStoredChildren ctx db \<longleftrightarrow>
     (\<forall>i a. map_of db i = Some a \<longrightarrow> i \<noteq> agentId ctx \<longrightarrow> parentAgentId a = Some (agentId ctx)
        \<longrightarrow> i \<in> set (childAgents ctx)) \<and>
     (parentAgentId ctx = Some (agentId ctx) \<longrightarrow> agentId ctx \<in> set (childAgents ctx))"
proof -
  have k: "\<And>i a. map_of db i = Some a \<Longrightarrow> i \<in> set (map fst db)"
    by (metis map_of_eq_None_iff option.distinct(1) set_map)
  have "(\<forall>i \<in> set (map fst db).
        case map_of db i of
          None \<Rightarrow> True
        | Some a \<Rightarrow>
            (i \<noteq> agentId ctx \<and> parentAgentId a = Some (agentId ctx)
               \<longrightarrow> i \<in> set (childAgents ctx))) \<longleftrightarrow>
     (\<forall>i a. map_of db i = Some a \<longrightarrow> i \<noteq> agentId ctx \<longrightarrow> parentAgentId a = Some (agentId ctx)
        \<longrightarrow> i \<in> set (childAgents ctx))" (is "?L \<longleftrightarrow> ?R")
  proof
    assume ?L
    show ?R
    proof (intro allI impI)
      fix i a assume m: "map_of db i = Some a" and "i \<noteq> agentId ctx" "parentAgentId a = Some (agentId ctx)"
      with \<open>?L\<close> k [OF m] show "i \<in> set (childAgents ctx)"
        by (fastforce split: option.splits)
    qed
  next
    assume ?R
    then show ?L by (auto split: option.splits)
  qed
  then show ?thesis
    unfolding listsStoredChildren_def by simp
qed

lemma set_setToArray [simp]: "set (setToArray xs) = set xs"
  by (simp add: setToArray_def)

text \<open>The store after a successful save, as a map.\<close>

lemma agent_save_no_parent:
  "\<not> truthy (parentAgentId ctx) \<Longrightarrow>
     agent_save now now' ctx db = (Done, AList.update (agentId ctx) (ctx\<lparr>lastUpdate := now\<rparr>) db)"
  by (simp add: agent_save_def)

lemma agent_save_parent_missing:
  "truthy (parentAgentId ctx) \<Longrightarrow> map_of db (the (parentAgentId ctx)) = None \<Longrightarrow>
     agent_save now now' ctx db = (Thrown (ParentMissing (the (parentAgentId ctx))), db)"
  by (simp add: agent_save_def)

lemma agent_save_parent_present:
  assumes "truthy (parentAgentId ctx)" and "map_of db (the (parentAgentId ctx)) = Some pd"
  shows "\<exists>pd'. fst (agent_save now now' ctx db) = Done \<and>
           map_of (snd (agent_save now now' ctx db)) =
             ((map_of db)(the (parentAgentId ctx) \<mapsto> pd'))(agentId ctx \<mapsto> ctx\<lparr>lastUpdate := now\<rparr>) \<and>
           parentAgentId pd' = parentAgentId pd \<and>
           set (childAgents pd') = insert (agentId ctx) (set (childAgents pd))"
proof (cases "agentId ctx \<in> set (childAgents pd)")
  case True
  with assms show ?thesis
    by (intro exI [of _ pd]) (auto simp: agent_save_def Let_def update_conv' fun_upd_idem)
next
  case False
  with assms show ?thesis
    by (intro exI [of _ "pd\<lparr>childAgents := setToArray (childAgents pd) @ [agentId ctx], lastUpdate := now'\<rparr>"])
       (auto simp: agent_save_def Let_def update_conv')
qed


lemma agent_save_preserves_childLinked:
  assumes inv: "childLinked db"
    and ok: "fst (agent_save now now' ctx db) = Done"
    and H: "listsStoredChildren ctx db"
  shows "childLinked (snd (agent_save now now' ctx db))"
proof -
  let ?aid = "agentId ctx"
  let ?ser = "ctx\<lparr>lastUpdate := now\<rparr>"
  let ?db' = "snd (agent_save now now' ctx db)"
  from inv have I: "\<And>i a. map_of db i = Some a \<Longrightarrow> truthy (parentAgentId a) \<Longrightarrow>
      \<exists>p. map_of db (the (parentAgentId a)) = Some p \<and> i \<in> set (childAgents p)"
    by (simp add: childLinked_iff)
  from H have H1: "\<And>i a. map_of db i = Some a \<Longrightarrow> i \<noteq> ?aid \<Longrightarrow>
      parentAgentId a = Some ?aid \<Longrightarrow> i \<in> set (childAgents ctx)"
    and H2: "parentAgentId ctx = Some ?aid \<Longrightarrow> ?aid \<in> set (childAgents ctx)"
    by (auto simp: listsStoredChildren_iff)
  show ?thesis
  proof (cases "truthy (parentAgentId ctx)")
    case False
    then have m: "map_of ?db' = (map_of db)(?aid \<mapsto> ?ser)"
      by (simp add: agent_save_no_parent update_conv')
    show ?thesis
      unfolding childLinked_iff
    proof (intro allI impI)
      fix i a assume a: "map_of ?db' i = Some a" and t: "truthy (parentAgentId a)"
      show "\<exists>p. map_of ?db' (the (parentAgentId a)) = Some p \<and> i \<in> set (childAgents p)"
      proof (cases "i = ?aid")
        case True
        with a m have "a = ?ser" by simp
        with t False show ?thesis by simp
      next
        case ne: False
        with a m have old: "map_of db i = Some a" by simp
        from I [OF old t] obtain p where p: "map_of db (the (parentAgentId a)) = Some p"
          "i \<in> set (childAgents p)" by blast
        show ?thesis
        proof (cases "the (parentAgentId a) = ?aid")
          case True
          with t have "parentAgentId a = Some ?aid"
            by (cases "parentAgentId a") (auto simp: truthy_def)
          from H1 [OF old ne this] True m show ?thesis by simp
        next
          case False
          with p m show ?thesis by simp
        qed
      qed
    qed
  next
    case True
    then obtain q where q: "parentAgentId ctx = Some q"
      by (cases "parentAgentId ctx") (auto simp: truthy_def)
    show ?thesis
    proof (cases "map_of db q")
      case None
      with True q ok show ?thesis
        by (simp add: agent_save_parent_missing)
    next
      case (Some pd)
      with True q agent_save_parent_present [of ctx db pd now now']
      obtain pd' where m: "map_of ?db' = ((map_of db)(q \<mapsto> pd'))(?aid \<mapsto> ?ser)"
        and pp: "parentAgentId pd' = parentAgentId pd"
        and pc: "set (childAgents pd') = insert ?aid (set (childAgents pd))"
        by auto
      show ?thesis
        unfolding childLinked_iff
      proof (intro allI impI)
        fix i a assume a: "map_of ?db' i = Some a" and t: "truthy (parentAgentId a)"
        then obtain r where r: "parentAgentId a = Some r"
          by (cases "parentAgentId a") (auto simp: truthy_def)
        show "\<exists>p. map_of ?db' (the (parentAgentId a)) = Some p \<and> i \<in> set (childAgents p)"
        proof (cases "i = ?aid")
          case True
          with a m have "a = ?ser" by simp
          with r q have rq: "r = q" by simp
          show ?thesis
          proof (cases "q = ?aid")
            case True
            with q H2 m r rq \<open>i = ?aid\<close> show ?thesis by simp
          next
            case False
            with m pc r rq \<open>i = ?aid\<close> show ?thesis by simp
          qed
        next
          case ne: False
          have "\<exists>a0. map_of db i = Some a0 \<and> parentAgentId a0 = Some r"
          proof (cases "i = q")
            case True
            with a m ne have "a = pd'" by simp
            with pp r Some True show ?thesis by simp
          next
            case False
            with a m ne r show ?thesis by simp
          qed
          then obtain a0 where old: "map_of db i = Some a0" and r0: "parentAgentId a0 = Some r"
            by blast
          from t r r0 have t0: "truthy (parentAgentId a0)" by simp
          from I [OF old t0] r0 obtain p where p: "map_of db r = Some p" "i \<in> set (childAgents p)"
            by auto
          show ?thesis
          proof (cases "r = ?aid")
            case True
            from H1 [OF old ne] r0 True m r show ?thesis by simp
          next
            case False
            show ?thesis
            proof (cases "r = q")
              case True
              with p Some have "p = pd" by simp
              with p pc m r True False show ?thesis by simp
            next
              case rq: False
              with False p m r show ?thesis by simp
            qed
          qed
        qed
      qed
    qed
  qed
qed


text \<open>
  After a successful save the document of \<open>ctx\<close> is the serialized context, and every
  other stored document keeps its \<open>parentAgentId\<close>.
\<close>

lemma agent_save_after:
  assumes ok: "fst (agent_save now now' ctx db) = Done"
  shows "map_of (snd (agent_save now now' ctx db)) (agentId ctx) = Some (ctx\<lparr>lastUpdate := now\<rparr>) \<and>
         (\<forall>i a. i \<noteq> agentId ctx \<longrightarrow> map_of db i = Some a \<longrightarrow>
            (\<exists>a'. map_of (snd (agent_save now now' ctx db)) i = Some a' \<and>
                  parentAgentId a' = parentAgentId a))"
proof (cases "truthy (parentAgentId ctx)")
  case False
  then show ?thesis
    by (simp add: agent_save_no_parent update_conv')
next
  case True
  show ?thesis
  proof (cases "map_of db (the (parentAgentId ctx))")
    case None
    with True ok show ?thesis
      by (simp add: agent_save_parent_missing)
  next
    case (Some pd)
    with True agent_save_parent_present [of ctx db pd now now']
    obtain pd' where m: "map_of (snd (agent_save now now' ctx db)) =
        ((map_of db)(the (parentAgentId ctx) \<mapsto> pd'))(agentId ctx \<mapsto> ctx\<lparr>lastUpdate := now\<rparr>)"
      and pp: "parentAgentId pd' = parentAgentId pd"
      by auto
    show ?thesis
    proof (intro conjI allI impI)
      from m show "map_of (snd (agent_save now now' ctx db)) (agentId ctx) = Some (ctx\<lparr>lastUpdate := now\<rparr>)"
        by simp
    next
      fix i a assume ne: "i \<noteq> agentId ctx" and old: "map_of db i = Some a"
      show "\<exists>a'. map_of (snd (agent_save now now' ctx db)) i = Some a' \<and>
                  parentAgentId a' = parentAgentId a"
      proof (cases "i = the (parentAgentId ctx)")
        case True
        with old Some have "a = pd" by simp
        with m ne True pp show ?thesis by simp
      next
        case False
        with m ne old show ?thesis by simp
      qed
    qed
  qed
qed

lemma agent_save_childLinked_needs:
  assumes ok: "fst (agent_save now now' ctx db) = Done"
    and after: "childLinked (snd (agent_save now now' ctx db))"
    and ne: "agentId ctx \<noteq> []"
  shows "listsStoredChildren ctx db"
proof -
  let ?aid = "agentId ctx"
  let ?db' = "snd (agent_save now now' ctx db)"
  from agent_save_after [OF ok]
  have own: "map_of ?db' ?aid = Some (ctx\<lparr>lastUpdate := now\<rparr>)"
    and others: "\<And>i a. i \<noteq> ?aid \<Longrightarrow> map_of db i = Some a \<Longrightarrow>
            \<exists>a'. map_of ?db' i = Some a' \<and> parentAgentId a' = parentAgentId a"
    by blast+
  from after have L: "\<And>i a. map_of ?db' i = Some a \<Longrightarrow> truthy (parentAgentId a) \<Longrightarrow>
      \<exists>p. map_of ?db' (the (parentAgentId a)) = Some p \<and> i \<in> set (childAgents p)"
    by (simp add: childLinked_iff)
  show ?thesis
    unfolding listsStoredChildren_iff
  proof (intro conjI allI impI)
    fix i a assume old: "map_of db i = Some a" and i: "i \<noteq> ?aid"
      and par: "parentAgentId a = Some ?aid"
    from others [OF i old] par obtain a' where a': "map_of ?db' i = Some a'"
      and pa': "parentAgentId a' = Some ?aid" by auto
    from pa' ne have "truthy (parentAgentId a')" by (simp add: truthy_def)
    from L [OF a' this] pa' own show "i \<in> set (childAgents ctx)" by auto
  next
    assume par: "parentAgentId ctx = Some ?aid"
    with ne have "truthy (parentAgentId (ctx\<lparr>lastUpdate := now\<rparr>))" by (simp add: truthy_def)
    from L [OF own this] par own show "?aid \<in> set (childAgents ctx)" by auto
  qed
qed

text \<open>
  C7 (as amended). \<open>save(ctx)\<close> with a parent id \<open>p\<close> reads the parent inside the
  transaction and, when the parent is absent, throws with the store unchanged. When the
  parent exists and is not \<open>ctx\<close> itself, the save succeeds, \<open>ctx\<close> is stored under its
  \<open>agentId\<close> and the stored \<open>childAgents\<close> of \<open>p\<close> contain \<open>ctx.agentId\<close>. The store-wide
  link property survives a successful save whose context lists, in its own
  \<open>childAgents\<close>, every stored agent that names it as parent; and it holds after a
  successful save (of a context with a non-empty \<open>agentId\<close>) only if the context lists
  them.
\<close>

theorem agent_save_parent_link:
  "(truthy (parentAgentId ctx) \<and> map_of db (the (parentAgentId ctx)) = None \<longrightarrow>
      agent_save now now' ctx db = (Thrown (ParentMissing (the (parentAgentId ctx))), db)) \<and>
   (truthy (parentAgentId ctx) \<and> map_of db (the (parentAgentId ctx)) \<noteq> None \<and>
    the (parentAgentId ctx) \<noteq> agentId ctx \<longrightarrow>
      fst (agent_save now now' ctx db) = Done \<and>
      agent_load (agentId ctx) (snd (agent_save now now' ctx db)) = Some (ctx\<lparr>lastUpdate := now\<rparr>) \<and>
      (\<exists>pd'. agent_load (the (parentAgentId ctx)) (snd (agent_save now now' ctx db)) = Some pd' \<and>
             agentId ctx \<in> set (childAgents pd'))) \<and>
   (childLinked db \<and> fst (agent_save now now' ctx db) = Done \<and> listsStoredChildren ctx db \<longrightarrow>
      childLinked (snd (agent_save now now' ctx db))) \<and>
   (fst (agent_save now now' ctx db) = Done \<and> childLinked (snd (agent_save now now' ctx db)) \<and>
    agentId ctx \<noteq> [] \<longrightarrow>
      listsStoredChildren ctx db)"
proof (intro conjI impI)
  assume "truthy (parentAgentId ctx) \<and> map_of db (the (parentAgentId ctx)) = None"
  then show "agent_save now now' ctx db = (Thrown (ParentMissing (the (parentAgentId ctx))), db)"
    by (simp add: agent_save_parent_missing)
next
  assume a: "truthy (parentAgentId ctx) \<and> map_of db (the (parentAgentId ctx)) \<noteq> None \<and>
    the (parentAgentId ctx) \<noteq> agentId ctx"
  then obtain pd where pd: "map_of db (the (parentAgentId ctx)) = Some pd" by auto
  from a pd agent_save_parent_present [of ctx db pd now now']
  obtain pd' where d: "fst (agent_save now now' ctx db) = Done"
    and m: "map_of (snd (agent_save now now' ctx db)) =
             ((map_of db)(the (parentAgentId ctx) \<mapsto> pd'))(agentId ctx \<mapsto> ctx\<lparr>lastUpdate := now\<rparr>)"
    and pc: "set (childAgents pd') = insert (agentId ctx) (set (childAgents pd))"
    by auto
  from d show "fst (agent_save now now' ctx db) = Done" .
  from m show "agent_load (agentId ctx) (snd (agent_save now now' ctx db)) = Some (ctx\<lparr>lastUpdate := now\<rparr>)"
    by (simp add: agent_load_def)
  from m a pc
  show "\<exists>pd'. agent_load (the (parentAgentId ctx)) (snd (agent_save now now' ctx db)) = Some pd' \<and>
             agentId ctx \<in> set (childAgents pd')"
    by (simp add: agent_load_def)
next
  assume "childLinked db \<and> fst (agent_save now now' ctx db) = Done \<and> listsStoredChildren ctx db"
  then show "childLinked (snd (agent_save now now' ctx db))"
    by (simp add: agent_save_preserves_childLinked)
next
  assume "fst (agent_save now now' ctx db) = Done \<and> childLinked (snd (agent_save now now' ctx db)) \<and>
    agentId ctx \<noteq> []"
  then show "listsStoredChildren ctx db"
    by (blast intro: agent_save_childLinked_needs)
qed

text \<open>
  A parent \<open>p\<close> and a child \<open>c\<close> of it: saving \<open>c\<close> into the empty store throws; saving it
  into the store that holds \<open>p\<close> links it. Saving \<open>p\<close> again, from a context that lists
  \<open>c\<close>, into the store that holds both keeps the link; and since the link is kept, the
  context lists the stored child.
\<close>

theorem agent_save_parent_link_witness:
  "agent_save 2 3
     \<lparr>agentId = ''c'', parentAgentId = Some ''p'', childAgents = [],
      user = \<lparr>user_id = ''u'', email = []\<rparr>, state = ''agent'', lastUpdate = 0, name = ''child''\<rparr> []
     = (Thrown (ParentMissing ''p''), []) \<and>
   fst (agent_save 2 3
     \<lparr>agentId = ''c'', parentAgentId = Some ''p'', childAgents = [],
      user = \<lparr>user_id = ''u'', email = []\<rparr>, state = ''agent'', lastUpdate = 0, name = ''child''\<rparr>
     [(''p'', \<lparr>agentId = ''p'', parentAgentId = None, childAgents = [],
        user = \<lparr>user_id = ''u'', email = []\<rparr>, state = ''agent'', lastUpdate = 1, name = ''parent''\<rparr>)])
     = Done \<and>
   agent_load ''c'' (snd (agent_save 2 3
     \<lparr>agentId = ''c'', parentAgentId = Some ''p'', childAgents = [],
      user = \<lparr>user_id = ''u'', email = []\<rparr>, state = ''agent'', lastUpdate = 0, name = ''child''\<rparr>
     [(''p'', \<lparr>agentId = ''p'', parentAgentId = None, childAgents = [],
        user = \<lparr>user_id = ''u'', email = []\<rparr>, state = ''agent'', lastUpdate = 1, name = ''parent''\<rparr>)]))
     = Some \<lparr>agentId = ''c'', parentAgentId = Some ''p'', childAgents = [],
      user = \<lparr>user_id = ''u'', email = []\<rparr>, state = ''agent'', lastUpdate = 2, name = ''child''\<rparr> \<and>
   childLinked (snd (agent_save 2 3
     \<lparr>agentId = ''c'', parentAgentId = Some ''p'', childAgents = [],
      user = \<lparr>user_id = ''u'', email = []\<rparr>, state = ''agent'', lastUpdate = 0, name = ''child''\<rparr>
     [(''p'', \<lparr>agentId = ''p'', parentAgentId = None, childAgents = [],
        user = \<lparr>user_id = ''u'', email = []\<rparr>, state = ''agent'', lastUpdate = 1, name = ''parent''\<rparr>)])) \<and>
   childLinked (snd (agent_save 4 4
     \<lparr>agentId = ''p'', parentAgentId = None, childAgents = [''c''],
      user = \<lparr>user_id = ''u'', email = []\<rparr>, state = ''completed'', lastUpdate = 3, name = ''parent''\<rparr>
     [(''p'', \<lparr>agentId = ''p'', parentAgentId = None, childAgents = [''c''],
        user = \<lparr>user_id = ''u'', email = []\<rparr>, state = ''agent'', lastUpdate = 3, name = ''parent''\<rparr>),
      (''c'', \<lparr>agentId = ''c'', parentAgentId = Some ''p'', childAgents = [],
        user = \<lparr>user_id = ''u'', email = []\<rparr>, state = ''agent'', lastUpdate = 2, name = ''child''\<rparr>)])) \<and>
   listsStoredChildren
     \<lparr>agentId = ''p'', parentAgentId = None, childAgents = [''c''],
      user = \<lparr>user_id = ''u'', email = []\<rparr>, state = ''completed'', lastUpdate = 3, name = ''parent''\<rparr>
     [(''p'', \<lparr>agentId = ''p'', parentAgentId = None, childAgents = [''c''],
        user = \<lparr>user_id = ''u'', email = []\<rparr>, state = ''agent'', lastUpdate = 3, name = ''parent''\<rparr>),
      (''c'', \<lparr>agentId = ''c'', parentAgentId = Some ''p'', childAgents = [],
        user = \<lparr>user_id = ''u'', email = []\<rparr>, state = ''agent'', lastUpdate = 2, name = ''child''\<rparr>)]"
proof -
  let ?c = "\<lparr>agentId = ''c'', parentAgentId = Some ''p'', childAgents = [],
      user = \<lparr>user_id = ''u'', email = []\<rparr>, state = ''agent'', lastUpdate = 0, name = ''child''\<rparr>"
  let ?db = "[(''p'', \<lparr>agentId = ''p'', parentAgentId = None, childAgents = [],
        user = \<lparr>user_id = ''u'', email = []\<rparr>, state = ''agent'', lastUpdate = 1, name = ''parent''\<rparr>)]"
  let ?p = "\<lparr>agentId = ''p'', parentAgentId = None, childAgents = [''c''],
      user = \<lparr>user_id = ''u'', email = []\<rparr>, state = ''completed'', lastUpdate = 3, name = ''parent''\<rparr>"
  let ?db2 = "[(''p'', \<lparr>agentId = ''p'', parentAgentId = None, childAgents = [''c''],
        user = \<lparr>user_id = ''u'', email = []\<rparr>, state = ''agent'', lastUpdate = 3, name = ''parent''\<rparr>),
      (''c'', \<lparr>agentId = ''c'', parentAgentId = Some ''p'', childAgents = [],
        user = \<lparr>user_id = ''u'', email = []\<rparr>, state = ''agent'', lastUpdate = 2, name = ''child''\<rparr>)]"
  have t: "truthy (parentAgentId ?c)" by (simp add: truthy_def)
  have 1: "truthy (parentAgentId ?c) \<and> map_of [] (the (parentAgentId ?c)) = None"
    using t by simp
  have 2: "truthy (parentAgentId ?c) \<and> map_of ?db (the (parentAgentId ?c)) \<noteq> None \<and>
           the (parentAgentId ?c) \<noteq> agentId ?c"
    using t by simp
  have d: "fst (agent_save 2 3 ?c ?db) = Done"
    using agent_save_parent_link [of ?c ?db 2 3] 2 by blast
  have 3: "childLinked ?db \<and> fst (agent_save 2 3 ?c ?db) = Done \<and> listsStoredChildren ?c ?db"
    using d by (simp add: childLinked_def listsStoredChildren_def truthy_def)
  have l: "agent_load (agentId ?c) (snd (agent_save 2 3 ?c ?db)) = Some (?c\<lparr>lastUpdate := 2\<rparr>)"
    using agent_save_parent_link [of ?c ?db 2 3] 2 by blast
  have k: "childLinked (snd (agent_save 2 3 ?c ?db))"
    using agent_save_parent_link [of ?c ?db 2 3] 3 by blast
  have d2: "fst (agent_save 4 4 ?p ?db2) = Done"
    by (simp add: agent_save_def truthy_def)
  have 4: "childLinked ?db2 \<and> fst (agent_save 4 4 ?p ?db2) = Done \<and> listsStoredChildren ?p ?db2"
    using d2 by (simp add: childLinked_def listsStoredChildren_def truthy_def)
  have k2: "childLinked (snd (agent_save 4 4 ?p ?db2))"
    using agent_save_parent_link [of ?p ?db2 4 4] 4 by blast
  have 5: "fst (agent_save 4 4 ?p ?db2) = Done \<and> childLinked (snd (agent_save 4 4 ?p ?db2)) \<and>
           agentId ?p \<noteq> []"
    using d2 k2 by simp
  have n: "listsStoredChildren ?p ?db2"
    using agent_save_parent_link [of ?p ?db2 4 4] 5 by blast
  from agent_save_parent_link [of ?c "[]" 2 3] 1 d l k k2 n
  show ?thesis by simp
qed

text \<open>
  The claim as stated fails: the parent is saved, the child is saved (and linked), and the
  parent is saved again from a context whose \<open>childAgents\<close> is still empty. All three
  saves succeed; the child still names \<open>p\<close> as its parent and \<open>p\<close> no longer lists it.
\<close>

theorem agent_save_parent_link_counterexample:
  "fst (agent_save 3 3
     \<lparr>agentId = ''p'', parentAgentId = None, childAgents = [],
      user = \<lparr>user_id = ''u'', email = []\<rparr>, state = ''agent'', lastUpdate = 0, name = ''parent''\<rparr>
     (snd (agent_save 2 2
       \<lparr>agentId = ''c'', parentAgentId = Some ''p'', childAgents = [],
        user = \<lparr>user_id = ''u'', email = []\<rparr>, state = ''agent'', lastUpdate = 0, name = ''child''\<rparr>
       (snd (agent_save 1 1
         \<lparr>agentId = ''p'', parentAgentId = None, childAgents = [],
          user = \<lparr>user_id = ''u'', email = []\<rparr>, state = ''agent'', lastUpdate = 0, name = ''parent''\<rparr>
         []))))) = Done \<and>
   map_option parentAgentId (agent_load ''c'' (snd (agent_save 3 3
     \<lparr>agentId = ''p'', parentAgentId = None, childAgents = [],
      user = \<lparr>user_id = ''u'', email = []\<rparr>, state = ''agent'', lastUpdate = 0, name = ''parent''\<rparr>
     (snd (agent_save 2 2
       \<lparr>agentId = ''c'', parentAgentId = Some ''p'', childAgents = [],
        user = \<lparr>user_id = ''u'', email = []\<rparr>, state = ''agent'', lastUpdate = 0, name = ''child''\<rparr>
       (snd (agent_save 1 1
         \<lparr>agentId = ''p'', parentAgentId = None, childAgents = [],
          user = \<lparr>user_id = ''u'', email = []\<rparr>, state = ''agent'', lastUpdate = 0, name = ''parent''\<rparr>
         []))))))) = Some (Some ''p'') \<and>
   map_option childAgents (agent_load ''p'' (snd (agent_save 3 3
     \<lparr>agentId = ''p'', parentAgentId = None, childAgents = [],
      user = \<lparr>user_id = ''u'', email = []\<rparr>, state = ''agent'', lastUpdate = 0, name = ''parent''\<rparr>
     (snd (agent_save 2 2
       \<lparr>agentId = ''c'', parentAgentId = Some ''p'', childAgents = [],
        user = \<lparr>user_id = ''u'', email = []\<rparr>, state = ''agent'', lastUpdate = 0, name = ''child''\<rparr>
       (snd (agent_save 1 1
         \<lparr>agentId = ''p'', parentAgentId = None, childAgents = [],
          user = \<lparr>user_id = ''u'', email = []\<rparr>, state = ''agent'', lastUpdate = 0, name = ''parent''\<rparr>
         []))))))) = Some [] \<and>
   \<not> childLinked (snd (agent_save 3 3
     \<lparr>agentId = ''p'', parentAgentId = None, childAgents = [],
      user = \<lparr>user_id = ''u'', email = []\<rparr>, state = ''agent'', lastUpdate = 0, name = ''parent''\<rparr>
     (snd (agent_save 2 2
       \<lparr>agentId = ''c'', parentAgentId = Some ''p'', childAgents = [],
        user = \<lparr>user_id = ''u'', email = []\<rparr>, state = ''agent'', lastUpdate = 0, name = ''child''\<rparr>
       (snd (agent_save 1 1
         \<lparr>agentId = ''p'', parentAgentId = None, childAgents = [],
          user = \<lparr>user_id = ''u'', email = []\<rparr>, state = ''agent'', lastUpdate = 0, name = ''parent''\<rparr>
         []))))))"
  by (simp add: agent_save_def agent_load_def childLinked_def truthy_def setToArray_def Let_def)

subsection \<open>\<open>delete\<close>\<close>

lemma map_of_commitDeletes:
  "map_of (commitDeletes ks db) k = (if k \<in> set ks then None else map_of db k)"
  by (induction db) (auto simp: commitDeletes_def)

lemma agentId_agent_load: "agent_load i db = Some a \<Longrightarrow> agentId a = i"
  by (auto simp: agent_load_def)

lemma deleteBatch_member:
  "k \<in> set (deleteBatch agents) \<longleftrightarrow> (\<exists>a \<in> set agents. k = agentId a \<or> k \<in> set (childAgents a))"
  by (auto simp: deleteBatch_def)

lemma loaded_deletable_member:
  "a \<in> set (filter (deletable ie u) (map the (filter (\<lambda>x. x \<noteq> None) (map (\<lambda>i. agent_load i db) ids))))
     \<longleftrightarrow> (\<exists>i \<in> set ids. agent_load i db = Some a \<and> deletable ie u a)"
  by (induction ids) auto

text \<open>
  C6 (as amended). With the current user bound, \<open>delete(ids)\<close> succeeds, and a document is
  removed exactly when it is one of the requested agents that passes the filter (owned by
  the current user, not executing, no parent) or is listed in the \<open>childAgents\<close> of such an
  agent; every other document stays as it was. The listed children are removed without any
  check of their own owner or state.
\<close>

theorem agent_delete_removes:
  "fst (agent_delete ie (Inr u) ids db) = Done \<and>
   (\<forall>k. map_of (snd (agent_delete ie (Inr u) ids db)) k =
      (if \<exists>i \<in> set ids. \<exists>a. agent_load i db = Some a \<and> deletable ie u a \<and>
                              (k = i \<or> k \<in> set (childAgents a))
       then None else map_of db k))"
proof
  show "fst (agent_delete ie (Inr u) ids db) = Done"
    by (simp add: agent_delete_def)
next
  show "\<forall>k. map_of (snd (agent_delete ie (Inr u) ids db)) k =
      (if \<exists>i \<in> set ids. \<exists>a. agent_load i db = Some a \<and> deletable ie u a \<and>
                              (k = i \<or> k \<in> set (childAgents a))
       then None else map_of db k)"
  proof
    fix k
    let ?agents = "filter (deletable ie u) (map the (filter (\<lambda>x. x \<noteq> None) (map (\<lambda>i. agent_load i db) ids)))"
    have "k \<in> set (deleteBatch ?agents) \<longleftrightarrow>
          (\<exists>i \<in> set ids. \<exists>a. agent_load i db = Some a \<and> deletable ie u a \<and>
                              (k = i \<or> k \<in> set (childAgents a)))"
    proof -
      have "k \<in> set (deleteBatch ?agents) \<longleftrightarrow>
            (\<exists>a. a \<in> set ?agents \<and> (k = agentId a \<or> k \<in> set (childAgents a)))"
        unfolding deleteBatch_member by blast
      also have "\<dots> \<longleftrightarrow>
            (\<exists>a. (\<exists>i \<in> set ids. agent_load i db = Some a \<and> deletable ie u a) \<and>
                 (k = agentId a \<or> k \<in> set (childAgents a)))"
        by (simp only: loaded_deletable_member)
      also have "\<dots> \<longleftrightarrow>
            (\<exists>i \<in> set ids. \<exists>a. agent_load i db = Some a \<and> deletable ie u a \<and>
                              (k = i \<or> k \<in> set (childAgents a)))"
        using agentId_agent_load [of _ db] by blast
      finally show ?thesis .
    qed
    then show "map_of (snd (agent_delete ie (Inr u) ids db)) k =
      (if \<exists>i \<in> set ids. \<exists>a. agent_load i db = Some a \<and> deletable ie u a \<and>
                              (k = i \<or> k \<in> set (childAgents a))
       then None else map_of db k)"
      by (simp add: agent_delete_def map_of_commitDeletes)
  qed
qed

text \<open>
  A completed agent \<open>a\<close> of the current user, an executing agent \<open>x\<close> of the current user and
  a completed agent \<open>o\<close> of another user: asked to delete all three, the store removes \<open>a\<close>
  only.
\<close>

theorem agent_delete_removes_witness:
  "agent_load ''a'' (snd (agent_delete isExecuting
      (Inr \<lparr>user_id = ''u'', email = []\<rparr>) [''a'', ''x'', ''o'']
      [(''a'', \<lparr>agentId = ''a'', parentAgentId = None, childAgents = [],
         user = \<lparr>user_id = ''u'', email = []\<rparr>, state = ''completed'', lastUpdate = 1, name = ''a''\<rparr>),
       (''x'', \<lparr>agentId = ''x'', parentAgentId = None, childAgents = [],
         user = \<lparr>user_id = ''u'', email = []\<rparr>, state = ''agent'', lastUpdate = 1, name = ''x''\<rparr>),
       (''o'', \<lparr>agentId = ''o'', parentAgentId = None, childAgents = [],
         user = \<lparr>user_id = ''v'', email = []\<rparr>, state = ''completed'', lastUpdate = 1, name = ''o''\<rparr>)]))
     = None \<and>
   agent_load ''x'' (snd (agent_delete isExecuting
      (Inr \<lparr>user_id = ''u'', email = []\<rparr>) [''a'', ''x'', ''o'']
      [(''a'', \<lparr>agentId = ''a'', parentAgentId = None, childAgents = [],
         user = \<lparr>user_id = ''u'', email = []\<rparr>, state = ''completed'', lastUpdate = 1, name = ''a''\<rparr>),
       (''x'', \<lparr>agentId = ''x'', parentAgentId = None, childAgents = [],
         user = \<lparr>user_id = ''u'', email = []\<rparr>, state = ''agent'', lastUpdate = 1, name = ''x''\<rparr>),
       (''o'', \<lparr>agentId = ''o'', parentAgentId = None, childAgents = [],
         user = \<lparr>user_id = ''v'', email = []\<rparr>, state = ''completed'', lastUpdate = 1, name = ''o''\<rparr>)]))
     = Some \<lparr>agentId = ''x'', parentAgentId = None, childAgents = [],
         user = \<lparr>user_id = ''u'', email = []\<rparr>, state = ''agent'', lastUpdate = 1, name = ''x''\<rparr> \<and>
   agent_load ''o'' (snd (agent_delete isExecuting
      (Inr \<lparr>user_id = ''u'', email = []\<rparr>) [''a'', ''x'', ''o'']
      [(''a'', \<lparr>agentId = ''a'', parentAgentId = None, childAgents = [],
         user = \<lparr>user_id = ''u'', email = []\<rparr>, state = ''completed'', lastUpdate = 1, name = ''a''\<rparr>),
       (''x'', \<lparr>agentId = ''x'', parentAgentId = None, childAgents = [],
         user = \<lparr>user_id = ''u'', email = []\<rparr>, state = ''agent'', lastUpdate = 1, name = ''x''\<rparr>),
       (''o'', \<lparr>agentId = ''o'', parentAgentId = None, childAgents = [],
         user = \<lparr>user_id = ''v'', email = []\<rparr>, state = ''completed'', lastUpdate = 1, name = ''o''\<rparr>)]))
     = Some \<lparr>agentId = ''o'', parentAgentId = None, childAgents = [],
         user = \<lparr>user_id = ''v'', email = []\<rparr>, state = ''completed'', lastUpdate = 1, name = ''o''\<rparr>"
proof -
  let ?ie = "isExecuting"
  let ?u = "\<lparr>user_id = ''u'', email = []\<rparr>"
  let ?db = "[(''a'', \<lparr>agentId = ''a'', parentAgentId = None, childAgents = [],
         user = \<lparr>user_id = ''u'', email = []\<rparr>, state = ''completed'', lastUpdate = 1, name = ''a''\<rparr>),
       (''x'', \<lparr>agentId = ''x'', parentAgentId = None, childAgents = [],
         user = \<lparr>user_id = ''u'', email = []\<rparr>, state = ''agent'', lastUpdate = 1, name = ''x''\<rparr>),
       (''o'', \<lparr>agentId = ''o'', parentAgentId = None, childAgents = [],
         user = \<lparr>user_id = ''v'', email = []\<rparr>, state = ''completed'', lastUpdate = 1, name = ''o''\<rparr>)]"
  let ?ids = "[''a'', ''x'', ''o'']"
  have m: "\<And>k. map_of (snd (agent_delete ?ie (Inr ?u) ?ids ?db)) k =
      (if \<exists>i \<in> set ?ids. \<exists>a. agent_load i ?db = Some a \<and> deletable ?ie ?u a \<and>
                              (k = i \<or> k \<in> set (childAgents a))
       then None else map_of ?db k)"
    using agent_delete_removes [of ?ie ?u ?ids ?db] by blast
  have "map_of (snd (agent_delete ?ie (Inr ?u) ?ids ?db)) ''a'' = None"
    unfolding m by (simp add: agent_load_def deletable_def isExecuting_def terminalStates_def truthy_def)
  moreover have "map_of (snd (agent_delete ?ie (Inr ?u) ?ids ?db)) ''x'' = map_of ?db ''x''"
    unfolding m by (simp add: agent_load_def deletable_def isExecuting_def terminalStates_def truthy_def)
  moreover have "map_of (snd (agent_delete ?ie (Inr ?u) ?ids ?db)) ''o'' = map_of ?db ''o''"
    unfolding m by (simp add: agent_load_def deletable_def isExecuting_def terminalStates_def truthy_def)
  ultimately show ?thesis
    by (simp add: agent_load_def)
qed

text \<open>
  The claim as stated fails for listed children. The parent \<open>p\<close> (completed, owned by the
  current user \<open>u\<close>) is saved, then its child \<open>c\<close>, which is executing and owned by another
  user \<open>v\<close>. \<open>delete([p])\<close> by \<open>u\<close> removes \<open>c\<close> as well.
\<close>

theorem agent_delete_removes_counterexample:
  "agent_load ''c''
     (snd (agent_save 2 2
        \<lparr>agentId = ''c'', parentAgentId = Some ''p'', childAgents = [],
         user = \<lparr>user_id = ''v'', email = []\<rparr>, state = ''agent'', lastUpdate = 0, name = ''child''\<rparr>
        (snd (agent_save 1 1
           \<lparr>agentId = ''p'', parentAgentId = None, childAgents = [],
            user = \<lparr>user_id = ''u'', email = []\<rparr>, state = ''completed'', lastUpdate = 0, name = ''parent''\<rparr>
           []))))
     = Some \<lparr>agentId = ''c'', parentAgentId = Some ''p'', childAgents = [],
         user = \<lparr>user_id = ''v'', email = []\<rparr>, state = ''agent'', lastUpdate = 2, name = ''child''\<rparr> \<and>
   isExecuting
     \<lparr>agentId = ''c'', parentAgentId = Some ''p'', childAgents = [],
      user = \<lparr>user_id = ''v'', email = []\<rparr>, state = ''agent'', lastUpdate = 2, name = ''child''\<rparr> \<and>
   agent_load ''c''
     (snd (agent_delete isExecuting (Inr \<lparr>user_id = ''u'', email = []\<rparr>) [''p'']
       (snd (agent_save 2 2
          \<lparr>agentId = ''c'', parentAgentId = Some ''p'', childAgents = [],
           user = \<lparr>user_id = ''v'', email = []\<rparr>, state = ''agent'', lastUpdate = 0, name = ''child''\<rparr>
          (snd (agent_save 1 1
             \<lparr>agentId = ''p'', parentAgentId = None, childAgents = [],
              user = \<lparr>user_id = ''u'', email = []\<rparr>, state = ''completed'', lastUpdate = 0, name = ''parent''\<rparr>
             []))))))
     = None"
  by (simp add: agent_save_def agent_load_def agent_delete_def deletable_def deleteBatch_def
      commitDeletes_def isExecuting_def terminalStates_def truthy_def setToArray_def Let_def)

subsection \<open>\<open>listRunning\<close>\<close>

lemma running_key_sorted:
  "sorted (map (\<lambda>(docId, d). (state d, - lastUpdate d))
     (sort_key (\<lambda>(docId, d). (state d, - lastUpdate d)) xs))"
  by (rule sorted_sort_key)

lemma terminal_filter:
  "(\<lambda>(docId, d). state d \<notin> set terminalStates) =
     (\<lambda>(docId::string, d). state d \<noteq> ''completed'' \<and> state d \<noteq> ''shutdown'' \<and> state d \<noteq> ''timeout'')"
  by (auto simp: terminalStates_def fun_eq_iff)

text \<open>
  C8. \<open>listRunning()\<close> returns exactly (each once) the stored contexts whose state is none of
  \<open>completed\<close>, \<open>shutdown\<close>, \<open>timeout\<close>: for each such document one context with the
  document id as \<open>agentId\<close> and the document's \<open>name\<close>, \<open>state\<close>, \<open>lastUpdate\<close> and user id,
  and nothing else. The contexts are partial (no parent, no children, a user of the id
  only), and they are ordered by \<open>state\<close> ascending and, within one state, by \<open>lastUpdate\<close>
  descending.
\<close>

theorem listRunning_exact_and_ordered:
  "mset (map (\<lambda>a. (agentId a, name a, state a, lastUpdate a, user_id (user a))) (listRunning db)) =
     mset (map (\<lambda>(docId, d). (docId, name d, state d, lastUpdate d, user_id (user d)))
       (filter (\<lambda>(docId, d). state d \<noteq> ''completed'' \<and> state d \<noteq> ''shutdown'' \<and> state d \<noteq> ''timeout'') db)) \<and>
   (\<forall>a \<in> set (listRunning db).
      parentAgentId a = None \<and> childAgents a = [] \<and> email (user a) = []) \<and>
   sorted_wrt (\<lambda>a b. state a < state b \<or> (state a = state b \<and> lastUpdate b \<le> lastUpdate a))
     (listRunning db)"
proof (intro conjI)
  let ?key = "\<lambda>(docId::string, d). (state d, - lastUpdate d)"
  let ?run = "filter (\<lambda>(docId, d). state d \<notin> set terminalStates) db"
  have "map (\<lambda>a. (agentId a, name a, state a, lastUpdate a, user_id (user a))) (listRunning db) =
        map (\<lambda>(docId, d). (docId, name d, state d, lastUpdate d, user_id (user d))) (sort_key ?key ?run)"
    by (simp add: listRunning_def deserializeQuery_def case_prod_unfold)
  then have "mset (map (\<lambda>a. (agentId a, name a, state a, lastUpdate a, user_id (user a))) (listRunning db)) =
        mset (map (\<lambda>(docId, d). (docId, name d, state d, lastUpdate d, user_id (user d))) ?run)"
    by simp
  then show "mset (map (\<lambda>a. (agentId a, name a, state a, lastUpdate a, user_id (user a))) (listRunning db)) =
     mset (map (\<lambda>(docId, d). (docId, name d, state d, lastUpdate d, user_id (user d)))
       (filter (\<lambda>(docId, d). state d \<noteq> ''completed'' \<and> state d \<noteq> ''shutdown'' \<and> state d \<noteq> ''timeout'') db))"
    by (simp only: terminal_filter)
next
  show "\<forall>a \<in> set (listRunning db).
      parentAgentId a = None \<and> childAgents a = [] \<and> email (user a) = []"
    by (auto simp: listRunning_def deserializeQuery_def)
next
  let ?key = "\<lambda>(docId::string, d). (state d, - lastUpdate d)"
  let ?ys = "sort_key ?key (filter (\<lambda>(docId, d). state d \<notin> set terminalStates) db)"
  have "sorted_wrt (\<lambda>x y. ?key x \<le> ?key y) ?ys"
    using running_key_sorted [of "filter (\<lambda>(docId, d). state d \<notin> set terminalStates) db"]
    by (simp add: sorted_wrt_map)
  then have "sorted_wrt (\<lambda>x y. state (snd x) < state (snd y) \<or>
                 (state (snd x) = state (snd y) \<and> lastUpdate (snd y) \<le> lastUpdate (snd x))) ?ys"
    by (rule sorted_wrt_mono_rel [rotated]) (auto simp: less_eq_prod_def)
  then show "sorted_wrt (\<lambda>a b. state a < state b \<or> (state a = state b \<and> lastUpdate b \<le> lastUpdate a))
     (listRunning db)"
    unfolding listRunning_def deserializeQuery_def
    by (simp add: sorted_wrt_map case_prod_unfold)
qed

text \<open>
  Four stored agents, one of them completed: the other three are returned, the two in
  state \<open>agent\<close> first (the later update before the earlier), then the one in state
  \<open>error\<close>.
\<close>

theorem listRunning_exact_and_ordered_witness:
  "mset (map (\<lambda>a. (agentId a, name a, state a, lastUpdate a, user_id (user a))) (listRunning exampleAgents)) =
     mset [(''a1'', ''first'', ''agent'', 5, ''u''), (''a3'', ''third'', ''error'', 7, ''v''),
           (''a4'', ''fourth'', ''agent'', 9, ''u'')] \<and>
   map agentId (listRunning exampleAgents) = [''a4'', ''a1'', ''a3'']"
proof -
  have run: "filter (\<lambda>(docId, d). state d \<noteq> ''completed'' \<and> state d \<noteq> ''shutdown'' \<and> state d \<noteq> ''timeout'')
               exampleAgents =
             [(''a1'', storedAgent ''a1'' ''first'' ''agent'' 5 ''u''),
              (''a3'', storedAgent ''a3'' ''third'' ''error'' 7 ''v''),
              (''a4'', storedAgent ''a4'' ''fourth'' ''agent'' 9 ''u'')]"
    by (simp add: exampleAgents_def storedAgent_def)
  from listRunning_exact_and_ordered [of exampleAgents]
  have "mset (map (\<lambda>a. (agentId a, name a, state a, lastUpdate a, user_id (user a))) (listRunning exampleAgents)) =
     mset (map (\<lambda>(docId, d). (docId, name d, state d, lastUpdate d, user_id (user d)))
       (filter (\<lambda>(docId, d). state d \<noteq> ''completed'' \<and> state d \<noteq> ''shutdown'' \<and> state d \<noteq> ''timeout'')
          exampleAgents))"
    by (rule conjunct1)
  then have 1: "mset (map (\<lambda>a. (agentId a, name a, state a, lastUpdate a, user_id (user a))) (listRunning exampleAgents)) =
     mset [(''a1'', ''first'', ''agent'', 5, ''u''), (''a3'', ''third'', ''error'', 7, ''v''),
           (''a4'', ''fourth'', ''agent'', 9, ''u'')]"
    unfolding run by (simp add: storedAgent_def)
  have 2: "map agentId (listRunning exampleAgents) = [''a4'', ''a1'', ''a3'']"
    by code_simp
  from 1 2 show ?thesis by (rule conjI)
qed

section \<open>Properties of the LLM call store\<close>

subsection \<open>Sizes and document ids\<close>

lemma length_join:
  "length (join sep xs) = joinBytes (length sep) (map length xs)"
  by (induction sep xs rule: join.induct) (auto simp: joinBytes_def)

lemma length_escapeChar: "length (escapeChar c) = escapeBytes c"
  by (simp add: escapeChar_def escapeBytes_def)

lemma length_quote: "length (quote s) = quoteBytes s"
  by (induction s) (auto simp: quote_def quoteBytes_def length_escapeChar)

lemma length_stringify: "length (stringify j) = jsonBytes j"
  by (induction j rule: stringify.induct)
     (auto simp: length_join length_quote o_def cong: map_cong)

lemma estimateSize_jsonBytes: "estimateSize j = jsonBytes j"
  by (simp add: estimateSize_def length_stringify)

lemma undecimal_snoc: "undecimal (s @ [c]) = 10 * undecimal s + (of_char c - 48)"
  by (simp add: undecimal_def)

lemma of_char_digit: "d < 10 \<Longrightarrow> (of_char (digit d) :: nat) = 48 + d"
  by (simp add: digit_def)

lemma undecimal_decimal: "undecimal (decimal n) = n"
proof (induction n rule: decimal.induct)
  case (1 n)
  show ?case
  proof (cases "n < 10")
    case True
    then show ?thesis
      by (subst decimal.simps) (simp add: undecimal_def of_char_digit)
  next
    case False
    with 1 have "undecimal (decimal (n div 10)) = n div 10" by simp
    with False show ?thesis
      by (subst decimal.simps) (simp add: undecimal_snoc of_char_digit)
  qed
qed

lemma decimal_inj: "decimal m = decimal n \<Longrightarrow> m = n"
  by (metis undecimal_decimal)

lemma chunkDocId_inj: "chunkDocId k i = chunkDocId k j \<longleftrightarrow> i = j"
  by (auto simp: chunkDocId_def dest: decimal_inj)

lemma chunkDocId_neq_key: "chunkDocId k i \<noteq> k"
  by (simp add: chunkDocId_def)

lemma decimal_small:
  "decimal (Suc 0) = ''1''" "decimal 1 = ''1''" "decimal 2 = ''2''" "decimal 3 = ''3''"
  "decimal (Suc (Suc 0)) = ''2''" "decimal (Suc (Suc (Suc 0))) = ''3''"
  by code_simp+

text \<open>The rules that evaluate sizes of concrete documents without unfolding long strings.\<close>

lemmas size_eval = estimateSize_jsonBytes quoteBytes_def escapeBytes_def joinBytes_def
  MAX_DOC_SIZE_def chunkData_def showInt_def decimal_small sum_list_replicate

subsection \<open>The packing loop\<close>

lemma chunkWrites_append:
  "chunkWrites k i (cs @ ds) = chunkWrites k i cs @ chunkWrites k (i + length cs) ds"
  by (induction cs arbitrary: i) auto

lemma chunkLoop_chunks:
  "chunkLoop k msgs idx cur batch cnt = (idx', cur', batch', cnt') \<Longrightarrow>
     \<exists>cs. batch' = batch @ chunkWrites k idx cs \<and> cnt' = cnt + length cs \<and>
          idx' = idx + length cs \<and> concat cs @ cur' = cur @ msgs \<and>
          (\<forall>c \<in> set cs. c \<noteq> []) \<and> (cur' = [] \<longrightarrow> cur = [] \<and> msgs = [])"
proof (induction msgs arbitrary: idx cur batch cnt)
  case Nil
  then show ?case by (intro exI [of _ "[]"]) simp
next
  case (Cons m msgs)
  show ?case
  proof (cases "estimateSize (JObj (chunkData k idx (cur @ [m]))) \<ge> MAX_DOC_SIZE \<and> cur \<noteq> []")
    case True
    with Cons.prems have "chunkLoop k msgs (idx + 1) [m]
        (batch @ [SetDoc (chunkDocId k idx) (chunkData k idx cur) False]) (cnt + 1) = (idx', cur', batch', cnt')"
      by simp
    from Cons.IH [OF this]
    obtain cs where cs: "batch' = (batch @ [SetDoc (chunkDocId k idx) (chunkData k idx cur) False]) @ chunkWrites k (idx + 1) cs"
      "cnt' = cnt + 1 + length cs" "idx' = idx + 1 + length cs" "concat cs @ cur' = [m] @ msgs"
      "\<forall>c \<in> set cs. c \<noteq> []" "cur' = [] \<longrightarrow> [m] = [] \<and> msgs = []"
      by (elim exE conjE)
    with True show ?thesis
      by (intro exI [of _ "cur # cs"]) simp
  next
    case False
    with Cons.prems have "chunkLoop k msgs idx (cur @ [m]) batch cnt = (idx', cur', batch', cnt')"
      by auto
    from Cons.IH [OF this]
    obtain cs where cs: "batch' = batch @ chunkWrites k idx cs"
      "cnt' = cnt + length cs" "idx' = idx + length cs" "concat cs @ cur' = (cur @ [m]) @ msgs"
      "\<forall>c \<in> set cs. c \<noteq> []" "cur' = [] \<longrightarrow> cur @ [m] = [] \<and> msgs = []"
      by (elim exE conjE)
    then show ?thesis
      by (intro exI [of _ cs]) simp
  qed
qed

text \<open>The batch of the chunked branch: the chunk writes, numbered from 1, then the main document.\<close>

lemma chunkedBatch_count:
  "\<exists>cs. chunkedBatch k dataToSave msgs merge =
           chunkWrites k 1 cs @
           [SetDoc k (AList.update ''chunkCount'' (JInt (int (length cs))) dataToSave) merge] \<and>
         concat cs = msgs \<and> (\<forall>c \<in> set cs. c \<noteq> []) \<and> length cs = chunkCountOf k msgs"
proof -
  obtain idx' cur' batch' cnt' where l: "chunkLoop k msgs 1 [] [] 0 = (idx', cur', batch', cnt')"
    by (cases "chunkLoop k msgs 1 [] [] 0") auto
  from chunkLoop_chunks [OF l]
  obtain cs where cs: "batch' = chunkWrites k 1 cs" "cnt' = length cs" "idx' = 1 + length cs"
      "concat cs @ cur' = msgs" "\<forall>c \<in> set cs. c \<noteq> []"
    by auto
  show ?thesis
  proof (cases "cur' = []")
    case True
    with l cs show ?thesis
      by (intro exI [of _ cs]) (simp add: chunkedBatch_def chunkCountOf_def)
  next
    case False
    with l cs show ?thesis
      by (intro exI [of _ "cs @ [cur']"]) (simp add: chunkedBatch_def chunkWrites_append chunkCountOf_def)
  qed
qed

subsection \<open>Committed batches\<close>

lemma map_of_setDoc:
  "map_of (setDoc i data merge db) =
     (map_of db)(i \<mapsto> (if merge then AList.merge (case map_of db i of None \<Rightarrow> [] | Some old \<Rightarrow> old) data
                        else data))"
  by (simp add: setDoc_def update_conv')

lemma distinct_setDoc: "distinct (map fst db) \<Longrightarrow> distinct (map fst (setDoc i data merge db))"
  by (simp add: setDoc_def distinct_update)

lemma distinct_commitDeletes: "distinct (map fst db) \<Longrightarrow> distinct (map fst (commitDeletes ks db))"
  by (simp add: commitDeletes_def distinct_map_filter)

lemma distinct_commit: "distinct (map fst db) \<Longrightarrow> distinct (map fst (commit batch db))"
  unfolding commit_def
proof (induction batch arbitrary: db)
  case Nil
  then show ?case by simp
next
  case (Cons w batch)
  then show ?case
    by (cases w) (simp_all add: distinct_setDoc distinct_commitDeletes)
qed

lemma commit_append: "commit (xs @ ys) db = commit ys (commit xs db)"
  by (simp add: commit_def)

lemma chunkDocs_keys: "map fst (chunkDocs k i cs) = map (chunkDocId k) [i ..< i + length cs]"
proof (induction cs arbitrary: i)
  case Nil
  show ?case by simp
next
  case (Cons c cs)
  have "[i ..< i + length (c # cs)] = i # [Suc i ..< Suc i + length cs]"
    by (subst upt_rec) simp
  with Cons show ?case by simp
qed

lemma distinct_chunkDocs: "distinct (map fst (chunkDocs k i cs))"
  unfolding chunkDocs_keys
  by (simp add: distinct_map inj_on_def chunkDocId_inj)

lemma map_of_commit_chunkWrites:
  "map_of (commit (chunkWrites k i cs) db) = map_of db ++ map_of (chunkDocs k i cs)"
proof (induction cs arbitrary: i db)
  case Nil
  show ?case by (simp add: commit_def)
next
  case (Cons c cs)
  have notin: "chunkDocId k i \<notin> fst ` set (chunkDocs k (Suc i) cs)"
    using distinct_chunkDocs [of k i "c # cs"] by simp
  have "map_of (commit (chunkWrites k i (c # cs)) db) =
        map_of (commit (chunkWrites k (Suc i) cs) (setDoc (chunkDocId k i) (chunkData k i c) False db))"
    by (simp add: commit_def)
  also have "\<dots> = (map_of db)(chunkDocId k i \<mapsto> chunkData k i c) ++ map_of (chunkDocs k (Suc i) cs)"
    by (simp only: Cons.IH map_of_setDoc if_False)
  also have "\<dots> = map_of db ++ map_of (chunkDocs k i (c # cs))"
  proof
    fix x
    from notin have "map_of (chunkDocs k (Suc i) cs) (chunkDocId k i) = None"
      by (simp add: map_of_eq_None_iff)
    then show "((map_of db)(chunkDocId k i \<mapsto> chunkData k i c) ++ map_of (chunkDocs k (Suc i) cs)) x =
          (map_of db ++ map_of (chunkDocs k i (c # cs))) x"
      by (cases "map_of (chunkDocs k (Suc i) cs) x") (auto simp: map_add_def)
  qed
  finally show ?case .
qed

lemma chunkDocs_sorted:
  "sorted (map (\<lambda>(docId, d). (chunkIndexOf d, docId)) (chunkDocs k i cs))"
proof (induction cs arbitrary: i)
  case Nil
  show ?case by simp
next
  case (Cons c cs)
  have "\<And>j d. (j, d) \<in> set (chunkDocs k (Suc i) cs) \<Longrightarrow> int i < chunkIndexOf d"
  proof -
    fix j d assume "(j, d) \<in> set (chunkDocs k (Suc i) cs)"
    then show "int i < chunkIndexOf d"
    proof (induction cs arbitrary: i)
      case Nil
      then show ?case by simp
    next
      case (Cons c cs)
      then show ?case
        by (fastforce simp: chunkIndexOf_def chunkData_def)
    qed
  qed
  then show ?case
    using Cons.IH [of "Suc i"]
    by (auto simp: chunkIndexOf_def chunkData_def less_eq_prod_def)
qed

lemma chunkDocs_isChunk:
  "(j, d) \<in> set (chunkDocs k i cs) \<Longrightarrow> 0 < i \<Longrightarrow> isChunkOf (JStr k) d"
  by (induction cs arbitrary: i) (auto simp: isChunkOf_def chunkIndexOf_def chunkData_def)

lemma chunkDocs_messages:
  "concat (map (\<lambda>(docId, d). chunkMessages d) (chunkDocs k i cs)) = concat cs"
  by (induction cs arbitrary: i) (auto simp: chunkMessages_def chunkData_def)

lemma chunkDocs_neq_key: "(j, d) \<in> set (chunkDocs k i cs) \<Longrightarrow> j \<noteq> k"
proof -
  assume "(j, d) \<in> set (chunkDocs k i cs)"
  then have "j \<in> set (map fst (chunkDocs k i cs))" by force
  then show "j \<noteq> k"
    unfolding chunkDocs_keys using chunkDocId_neq_key [of k] by auto
qed

lemma map_of_merge_key:
  "map_of (AList.merge old new) x = (case map_of new x of Some v \<Rightarrow> Some v | None \<Rightarrow> map_of old x)"
  by (simp add: merge_conv' map_add_def)

lemma chunkIndexOf_cong: "map_of a ''chunkIndex'' = map_of b ''chunkIndex'' \<Longrightarrow> chunkIndexOf a = chunkIndexOf b"
  by (simp add: chunkIndexOf_def)

text \<open>A list sorted on an injective key is determined by its set.\<close>

lemma sorted_key_unique:
  fixes f :: "'a \<Rightarrow> 'b::linorder"
  assumes "sorted (map f xs)" "sorted (map f ys)" "distinct xs" "distinct ys"
    and "set xs = set ys" and "inj_on f (set xs)"
  shows "xs = ys"
proof -
  have "distinct (map f xs)" "distinct (map f ys)"
    using assms by (simp_all add: distinct_map)
  moreover have "set (map f xs) = set (map f ys)"
    using assms by simp
  ultimately have "map f xs = map f ys"
    using assms(1,2) by (rule_tac sorted_distinct_set_unique)
  with assms(5,6) show ?thesis
    by (simp add: inj_on_map_eq_map)
qed

subsection \<open>Reading a saved call back\<close>

text \<open>The store after the chunked batch, and what the chunk query finds in it.\<close>

lemma chunked_store:
  assumes d: "distinct (map fst db)"
    and stale: "staleChunksOverwritten k (length cs) db"
    and head: "chunkIndexOf newHead \<le> 0"
    and db': "db' = AList.update k newHead (commit (chunkWrites k 1 cs) db)"
  shows "chunksQuery (JStr k) db' = chunkDocs k 1 cs"
proof -
  let ?db1 = "commit (chunkWrites k 1 cs) db"
  let ?E = "chunkDocs k 1 cs"
  let ?f = "\<lambda>(docId :: string, d). (chunkIndexOf d, docId)"
  let ?P = "\<lambda>(docId :: string, d). isChunkOf (JStr k) d"
  have d1: "distinct (map fst ?db1)" using d by (rule distinct_commit)
  have d': "distinct (map fst db')" unfolding db' using d1 by (rule distinct_update)
  have m: "map_of db' = (map_of db ++ map_of ?E)(k \<mapsto> newHead)"
    unfolding db' by (simp add: update_conv' map_of_commit_chunkWrites)
  have dE: "distinct (map fst ?E)" by (rule distinct_chunkDocs)
  have mem': "\<And>j x. (j, x) \<in> set db' \<longleftrightarrow> map_of db' j = Some x"
    using d' by simp
  have memE: "\<And>j x. (j, x) \<in> set ?E \<longleftrightarrow> map_of ?E j = Some x"
    using dE by simp
  have mem: "\<And>j x. (j, x) \<in> set db \<longleftrightarrow> map_of db j = Some x"
    using d by simp
  have set_eq: "set (filter ?P db') = set ?E"
  proof (intro set_eqI iffI)
    fix e assume "e \<in> set (filter ?P db')"
    then have "e \<in> set db'" "?P e" by simp_all
    then obtain j x where e: "e = (j, x)" and inl: "(j, x) \<in> set db'" and ch: "isChunkOf (JStr k) x"
      by (cases e) auto
    from inl have in': "map_of db' j = Some x" by (simp only: mem')
    have jk: "j \<noteq> k"
    proof
      assume "j = k"
      with in' m have "x = newHead" by simp
      with ch head show False by (simp add: isChunkOf_def)
    qed
    show "e \<in> set ?E"
    proof (cases "map_of ?E j")
      case (Some y)
      with in' m jk have "x = y" by (simp add: map_add_def)
      with Some have "(j, x) \<in> set ?E" by (simp only: memE)
      with e show ?thesis by simp
    next
      case None
      with in' m jk have "map_of db j = Some x" by (simp add: map_add_def)
      then have "(j, x) \<in> set db" by (simp add: mem)
      with stale ch jk have "j \<in> set (map (chunkDocId k) [1 ..< Suc (length cs)])"
        by (auto simp: staleChunksOverwritten_def)
      then have "j \<in> set (map fst ?E)"
        by (simp add: chunkDocs_keys)
      with None show ?thesis
        by (simp add: map_of_eq_None_iff)
    qed
  next
    fix e assume eE: "e \<in> set ?E"
    obtain j x where e: "e = (j, x)" by (cases e)
    from eE e have jk: "j \<noteq> k" by (auto dest: chunkDocs_neq_key)
    from eE e have "(j, x) \<in> set ?E" by simp
    then have "map_of ?E j = Some x" by (simp only: memE)
    with m jk have "map_of db' j = Some x" by (simp add: map_add_def)
    moreover from eE e have "isChunkOf (JStr k) x" by (auto dest: chunkDocs_isChunk)
    ultimately have "(j, x) \<in> set db' \<and> isChunkOf (JStr k) x"
      by (simp only: mem')
    then show "e \<in> set (filter ?P db')"
      using e by simp
  qed
  have dl: "distinct db'" using d' by (simp add: distinct_map)
  have inj: "inj_on ?f (set (sort_key ?f (filter ?P db')))"
  proof (rule inj_onI)
    fix a b assume a: "a \<in> set (sort_key ?f (filter ?P db'))" and b: "b \<in> set (sort_key ?f (filter ?P db'))"
      and eq: "?f a = ?f b"
    obtain j x where a': "a = (j, x)" by (cases a)
    obtain j' y where b': "b = (j', y)" by (cases b)
    from eq a' b' have "j = j'" by simp
    moreover from a a' have "(j, x) \<in> set db'" by simp
    then have "map_of db' j = Some x" by (simp only: mem')
    moreover from b b' have "(j', y) \<in> set db'" by simp
    then have "map_of db' j' = Some y" by (simp only: mem')
    ultimately show "a = b" using a' b' by simp
  qed
  show ?thesis
    unfolding chunksQuery_def
  proof (rule sorted_key_unique [where f = ?f])
    show "sorted (map ?f (sort_key ?f (filter ?P db')))" by (rule sorted_sort_key)
    show "sorted (map ?f ?E)" by (rule chunkDocs_sorted)
    show "distinct (sort_key ?f (filter ?P db'))" using dl by simp
    show "distinct ?E" using dE by (simp only: distinct_map)
    show "set (sort_key ?f (filter ?P db')) = set ?E" using set_eq by simp
    show "inj_on ?f (set (sort_key ?f (filter ?P db')))" by (rule inj)
  qed
qed

lemma deserialize_messages:
  "map_of (deserialize docId data) ''messages'' = Some (nullish (map_of data ''messages'') (JArr []))"
  by (simp add: deserialize_def)

lemma getCall_after_single:
  assumes "\<not> savedChunked dataToSave msgs"
  shows "\<exists>r. getCall k (snd (saveOrUpdateLlmCall k dataToSave msgs merge db)) = Some r \<and>
             map_of r ''messages'' = Some (JArr msgs)"
proof -
  let ?finalData = "AList.update ''chunkCount'' (JInt 0) (AList.update ''messages'' (JArr msgs) dataToSave)"
  let ?old = "case map_of db k of None \<Rightarrow> [] | Some old \<Rightarrow> old"
  let ?head = "if merge then AList.merge ?old ?finalData else ?finalData"
  from assms have s: "snd (saveOrUpdateLlmCall k dataToSave msgs merge db) = setDoc k ?finalData merge db"
    by (simp add: saveOrUpdateLlmCall_def savedChunked_def Let_def)
  have h: "map_of (setDoc k ?finalData merge db) k = Some ?head"
    by (simp add: map_of_setDoc)
  have c: "map_of ?head ''chunkCount'' = Some (JInt 0)"
    by (simp add: map_of_merge_key update_conv')
  have ms: "map_of ?head ''messages'' = Some (JArr msgs)"
    by (simp add: map_of_merge_key update_conv')
  have "getCall k (setDoc k ?finalData merge db) = Some (deserialize k ?head)"
    unfolding getCall_def h by (simp add: c nullish_def)
  moreover have "map_of (deserialize k ?head) ''messages'' = Some (JArr msgs)"
    unfolding deserialize_messages ms by (simp add: nullish_def)
  ultimately show ?thesis
    unfolding s by blast
qed

lemma getCall_after_chunked:
  assumes ch: "savedChunked dataToSave msgs"
    and ok: "fst (saveOrUpdateLlmCall k dataToSave msgs merge db) = Done"
    and d: "distinct (map fst db)"
    and ne: "msgs \<noteq> []"
    and cid: "map_of dataToSave ''llmCallId'' = Some (JStr k)"
    and stale: "staleChunksOverwritten k (chunkCountOf k msgs) db"
    and hd: "headNotChunk k dataToSave merge db"
  shows "\<exists>r. getCall k (snd (saveOrUpdateLlmCall k dataToSave msgs merge db)) = Some r \<and>
             map_of r ''messages'' = Some (JArr msgs)"
proof -
  let ?old = "case map_of db k of None \<Rightarrow> [] | Some old \<Rightarrow> old"
  from chunkedBatch_count [of k dataToSave msgs merge]
  obtain cs where b: "chunkedBatch k dataToSave msgs merge =
           chunkWrites k 1 cs @
           [SetDoc k (AList.update ''chunkCount'' (JInt (int (length cs))) dataToSave) merge]"
    and cc: "concat cs = msgs" and n: "length cs = chunkCountOf k msgs"
    by blast
  let ?main = "AList.update ''chunkCount'' (JInt (int (length cs))) dataToSave"
  let ?db1 = "commit (chunkWrites k 1 cs) db"
  let ?head = "if merge then AList.merge ?old ?main else ?main"
  from ch ok have s: "snd (saveOrUpdateLlmCall k dataToSave msgs merge db) =
      commit (chunkedBatch k dataToSave msgs merge) db"
    by (auto simp: saveOrUpdateLlmCall_def savedChunked_def Let_def split: if_splits)
  have old1: "map_of ?db1 k = map_of db k"
  proof -
    have "map_of (chunkDocs k 1 cs) k = None"
      using chunkDocs_neq_key [of k _ k 1 cs] by (auto simp: map_of_eq_None_iff)
    then show ?thesis by (simp add: map_of_commit_chunkWrites map_add_def)
  qed
  have "commit [SetDoc k ?main merge] ?db1 = setDoc k ?main merge ?db1"
    by (simp add: commit_def)
  also have "\<dots> = AList.update k ?head ?db1"
    by (cases merge) (simp_all only: setDoc_def old1 if_True if_False)
  finally have s': "snd (saveOrUpdateLlmCall k dataToSave msgs merge db) = AList.update k ?head ?db1"
    unfolding s b by (simp only: commit_append)
  have ci: "chunkIndexOf ?head \<le> 0"
  proof -
    have "map_of ?head ''chunkIndex'' =
          map_of (if merge then AList.merge ?old dataToSave else dataToSave) ''chunkIndex''"
      by (simp add: map_of_merge_key update_conv')
    then have "chunkIndexOf ?head = chunkIndexOf (if merge then AList.merge ?old dataToSave else dataToSave)"
      by (rule chunkIndexOf_cong)
    with hd show ?thesis by (simp add: headNotChunk_def)
  qed
  from stale n have stale': "staleChunksOverwritten k (length cs) db" by simp
  have q: "chunksQuery (JStr k) (AList.update k ?head ?db1) = chunkDocs k 1 cs"
    using d stale' ci by (rule chunked_store) simp
  from ne cc have "cs \<noteq> []" by auto
  then have pos: "JInt (int (length cs)) \<noteq> JInt 0" by simp
  have h: "map_of (AList.update k ?head ?db1) k = Some ?head"
    by (simp add: update_conv')
  have c: "map_of ?head ''chunkCount'' = Some (JInt (int (length cs)))"
    by (simp add: map_of_merge_key update_conv')
  have l: "map_of ?head ''llmCallId'' = Some (JStr k)"
    using cid by (simp add: map_of_merge_key update_conv')
  have "getCall k (AList.update k ?head ?db1) =
        Some (deserialize k (AList.update ''messages'' (JArr msgs) ?head))"
    unfolding getCall_def h
    using pos by (simp add: c l nullish_def q chunkDocs_messages cc del: One_nat_def)
  moreover have "map_of (deserialize k (AList.update ''messages'' (JArr msgs) ?head)) ''messages'' =
        Some (JArr msgs)"
    unfolding deserialize_messages by (simp add: update_conv' nullish_def)
  ultimately show ?thesis
    unfolding s' by blast
qed

subsection \<open>Example stores\<close>

lemmas save_eval = saveResponse_def callKey_def responseUserId_def responseData_def
  saveOrUpdateLlmCall_def chunkedBatch_def commit_def setDoc_def chunkDocId_def exampleCall_def
  largeMessage_def

text \<open>The store after saving two, and after saving three, messages of 600000 bytes each.\<close>

lemma example_store2:
  "saveResponse (Inl NotBound)
     (exampleCall ''a'' [largeMessage ''user'' 600000, largeMessage ''system'' 600000]) [] =
   (Done,
    [(''a-1'', chunkData ''a'' 1 [largeMessage ''user'' 600000]),
     (''a-2'', chunkData ''a'' 2 [largeMessage ''system'' 600000]),
     (''a'', [(''chunkCount'', JInt 2), (''userId'', JStr ''u''), (''llmCallId'', JStr ''a''),
              (''llmId'', JStr ''test-llm'')])])"
  by (simp add: save_eval size_eval)

lemma example_store3:
  "saveResponse (Inl NotBound)
     (exampleCall ''a'' [largeMessage ''user'' 600000, largeMessage ''system'' 600000,
                   largeMessage ''assistant'' 600000]) [] =
   (Done,
    [(''a-1'', chunkData ''a'' 1 [largeMessage ''user'' 600000]),
     (''a-2'', chunkData ''a'' 2 [largeMessage ''system'' 600000]),
     (''a-3'', chunkData ''a'' 3 [largeMessage ''assistant'' 600000]),
     (''a'', [(''chunkCount'', JInt 3), (''userId'', JStr ''u''), (''llmCallId'', JStr ''a''),
              (''llmId'', JStr ''test-llm'')])])"
  by (simp add: save_eval size_eval)

subsection \<open>Round trip through \<open>saveResponse\<close> and \<open>getCall\<close>\<close>

text \<open>
  C1 (as amended). After a successful \<open>saveResponse(call)\<close>, \<open>getCall\<close> under the key the call
  was stored under (\<open>call.llmCallId ?? call.id\<close>) returns a record whose \<open>messages\<close> equal
  \<open>call.messages\<close>: always when the record was written as a single document, and for a
  chunked record when the message list is not empty, no stale chunk of the same call
  outlives the save and the main document is not itself a chunk.
\<close>

theorem saveResponse_getCall_roundtrip:
  assumes ok: "fst (saveResponse cu llmCall db) = Done"
    and rb: "readsBack cu llmCall db"
  shows "messagesOf
           (getCall (callKey llmCall) (snd (saveResponse cu llmCall db)))
         = Some (JArr (messages llmCall))"
proof -
  from ok obtain uid where uid: "responseUserId cu llmCall = Inr uid"
    by (cases "responseUserId cu llmCall") (auto simp: saveResponse_def split: if_splits)
  from ok have key: "callKey llmCall \<noteq> []"
    by (auto simp: saveResponse_def split: if_splits)
  let ?k = "callKey llmCall" and ?data = "responseData uid llmCall" and ?ms = "messages llmCall"
  from uid key have s: "saveResponse cu llmCall db = saveOrUpdateLlmCall ?k ?data ?ms True db"
    by (simp add: saveResponse_def)
  have "\<exists>r. getCall ?k (snd (saveOrUpdateLlmCall ?k ?data ?ms True db)) = Some r \<and>
            map_of r ''messages'' = Some (JArr ?ms)"
  proof (cases "savedChunked ?data ?ms")
    case False
    then show ?thesis by (rule getCall_after_single)
  next
    case True
    with rb uid have h: "distinct (map fst db)" "?ms \<noteq> []"
        "staleChunksOverwritten ?k (chunkCountOf ?k ?ms) db" "headNotChunk ?k ?data True db"
      by (simp_all add: readsBack_def)
    have cid: "map_of ?data ''llmCallId'' = Some (JStr ?k)"
      by (simp add: responseData_def update_conv')
    from ok s have ok': "fst (saveOrUpdateLlmCall ?k ?data ?ms True db) = Done" by simp
    from True ok' h(1,2) cid h(3,4) show ?thesis by (rule getCall_after_chunked)
  qed
  then show ?thesis
    unfolding s by (auto simp: messagesOf_def)
qed

text \<open>
  The usual sequence: the request is saved with two large messages (two chunks), the
  response with three (three chunks, the first two overwriting the old ones).
\<close>

theorem saveResponse_getCall_roundtrip_witness:
  "messagesOf
     (getCall ''a''
        (snd (saveResponse (Inl NotBound)
           (exampleCall ''a'' [largeMessage ''user'' 600000, largeMessage ''system'' 600000,
                         largeMessage ''assistant'' 600000])
           (snd (saveResponse (Inl NotBound)
              (exampleCall ''a'' [largeMessage ''user'' 600000, largeMessage ''system'' 600000]) [])))))
   = Some (JArr [largeMessage ''user'' 600000, largeMessage ''system'' 600000,
                       largeMessage ''assistant'' 600000])"
proof -
  let ?c2 = "exampleCall ''a'' [largeMessage ''user'' 600000, largeMessage ''system'' 600000]"
  let ?c3 = "exampleCall ''a'' [largeMessage ''user'' 600000, largeMessage ''system'' 600000,
                         largeMessage ''assistant'' 600000]"
  let ?db = "snd (saveResponse (Inl NotBound) ?c2 [])"
  have db: "?db = [(''a-1'', chunkData ''a'' 1 [largeMessage ''user'' 600000]),
     (''a-2'', chunkData ''a'' 2 [largeMessage ''system'' 600000]),
     (''a'', [(''chunkCount'', JInt 2), (''userId'', JStr ''u''), (''llmCallId'', JStr ''a''),
              (''llmId'', JStr ''test-llm'')])]"
    by (simp add: example_store2)
  have ok: "fst (saveResponse (Inl NotBound) ?c3 ?db) = Done"
    unfolding db by (simp add: save_eval size_eval)
  have n: "chunkCountOf ''a'' [largeMessage ''user'' 600000, largeMessage ''system'' 600000,
                         largeMessage ''assistant'' 600000] = 3"
    by (simp add: chunkCountOf_def largeMessage_def size_eval)
  have rb: "readsBack (Inl NotBound) ?c3 ?db"
    unfolding db
    by (simp add: readsBack_def responseUserId_def exampleCall_def callKey_def n
          staleChunksOverwritten_def headNotChunk_def isChunkOf_def chunkIndexOf_def chunkData_def
          responseData_def chunkDocId_def decimal_small upt_rec)
  have k: "callKey ?c3 = ''a''" and m: "messages ?c3 = [largeMessage ''user'' 600000,
       largeMessage ''system'' 600000, largeMessage ''assistant'' 600000]"
    by (simp_all add: callKey_def exampleCall_def)
  from saveResponse_getCall_roundtrip [OF ok rb] show ?thesis
    unfolding k m .
qed

text \<open>
  The claim as stated fails when an earlier, longer save of the same call left a chunk
  behind. The call is saved with three large messages (chunks \<open>a-1\<close>, \<open>a-2\<close>, \<open>a-3\<close>) and
  then with the first two only: the second save succeeds and writes \<open>a-1\<close>, \<open>a-2\<close> and
  \<open>chunkCount = 2\<close>; \<open>getCall\<close> returns three messages, the third from the stale \<open>a-3\<close>.
\<close>

theorem saveResponse_getCall_roundtrip_counterexample:
  "fst (saveResponse (Inl NotBound)
         (exampleCall ''a'' [largeMessage ''user'' 600000, largeMessage ''system'' 600000])
         (snd (saveResponse (Inl NotBound)
            (exampleCall ''a'' [largeMessage ''user'' 600000, largeMessage ''system'' 600000,
                          largeMessage ''assistant'' 600000]) []))) = Done \<and>
   messagesOf
     (getCall ''a''
        (snd (saveResponse (Inl NotBound)
           (exampleCall ''a'' [largeMessage ''user'' 600000, largeMessage ''system'' 600000])
           (snd (saveResponse (Inl NotBound)
              (exampleCall ''a'' [largeMessage ''user'' 600000, largeMessage ''system'' 600000,
                            largeMessage ''assistant'' 600000]) [])))))
   = Some (JArr [largeMessage ''user'' 600000, largeMessage ''system'' 600000,
                       largeMessage ''assistant'' 600000]) \<and>
   messages (exampleCall ''a'' [largeMessage ''user'' 600000, largeMessage ''system'' 600000])
   = [largeMessage ''user'' 600000, largeMessage ''system'' 600000]"
proof -
  let ?c2 = "exampleCall ''a'' [largeMessage ''user'' 600000, largeMessage ''system'' 600000]"
  let ?c3 = "exampleCall ''a'' [largeMessage ''user'' 600000, largeMessage ''system'' 600000,
                         largeMessage ''assistant'' 600000]"
  let ?db = "snd (saveResponse (Inl NotBound) ?c3 [])"
  have db: "?db = [(''a-1'', chunkData ''a'' 1 [largeMessage ''user'' 600000]),
     (''a-2'', chunkData ''a'' 2 [largeMessage ''system'' 600000]),
     (''a-3'', chunkData ''a'' 3 [largeMessage ''assistant'' 600000]),
     (''a'', [(''chunkCount'', JInt 3), (''userId'', JStr ''u''), (''llmCallId'', JStr ''a''),
              (''llmId'', JStr ''test-llm'')])]"
    by (simp add: example_store3)
  have s: "saveResponse (Inl NotBound) ?c2 ?db =
    (Done,
     [(''a-1'', chunkData ''a'' 1 [largeMessage ''user'' 600000]),
      (''a-2'', chunkData ''a'' 2 [largeMessage ''system'' 600000]),
      (''a-3'', chunkData ''a'' 3 [largeMessage ''assistant'' 600000]),
      (''a'', [(''chunkCount'', JInt 2), (''userId'', JStr ''u''), (''llmCallId'', JStr ''a''),
               (''llmId'', JStr ''test-llm'')])])"
    unfolding db by (simp add: save_eval size_eval)
  have g: "getCall ''a''
     [(''a-1'', chunkData ''a'' 1 [largeMessage ''user'' 600000]),
      (''a-2'', chunkData ''a'' 2 [largeMessage ''system'' 600000]),
      (''a-3'', chunkData ''a'' 3 [largeMessage ''assistant'' 600000]),
      (''a'', [(''chunkCount'', JInt 2), (''userId'', JStr ''u''), (''llmCallId'', JStr ''a''),
               (''llmId'', JStr ''test-llm'')])]
     = Some (deserialize ''a''
         (AList.update ''messages''
            (JArr [largeMessage ''user'' 600000, largeMessage ''system'' 600000,
                   largeMessage ''assistant'' 600000])
            [(''chunkCount'', JInt 2), (''userId'', JStr ''u''), (''llmCallId'', JStr ''a''),
             (''llmId'', JStr ''test-llm'')]))"
    by (simp add: getCall_def nullish_def chunksQuery_def isChunkOf_def chunkIndexOf_def
          chunkData_def chunkMessages_def less_eq_prod_def)
  show ?thesis
    unfolding s fst_conv snd_conv g
    by (simp add: messagesOf_def deserialize_messages nullish_def exampleCall_def)
qed

subsection \<open>The single-message boundary\<close>

text \<open>Replacing the value of one property changes the size by the difference of the values.\<close>

lemma entries_update:
  "sum_list (map (\<lambda>kv. quoteBytes (fst kv) + 1 + jsonBytes (snd kv)) (AList.update key v d)) + jsonBytes w =
   sum_list (map (\<lambda>kv. quoteBytes (fst kv) + 1 + jsonBytes (snd kv)) (AList.update key w d)) + jsonBytes v"
  by (induction d) auto

lemma length_update_value: "length (AList.update key v d) = length (AList.update key w d)"
  by (induction d) auto

lemma jsonBytes_update:
  "jsonBytes (JObj (AList.update key v d)) + jsonBytes w =
   jsonBytes (JObj (AList.update key w d)) + jsonBytes v"
  using entries_update [of key v d w] length_update_value [of key v d w]
  by (simp add: joinBytes_def)

lemma chunk_envelope:
  "estimateSize (JObj (chunkData k i [m])) = estimateSize (JObj (chunkData k i [])) + estimateSize m"
  by (simp add: estimateSize_jsonBytes chunkData_def joinBytes_def)

text \<open>
  C4. Saving a call whose total serialized size reaches the ceiling: a single message of
  size \<open>MAX_DOC_SIZE - envelope\<close> (the envelope being the chunk document around it) is
  written as one chunk, with the main document carrying \<open>chunkCount = 1\<close>; the same message
  one byte larger throws \<open>MessageTooLarge\<close>, and the store is then unchanged.
\<close>

theorem single_message_boundary:
  assumes total: "estimateSize (JObj (AList.update ''messages'' (JArr [m]) dataToSave)) \<ge> MAX_DOC_SIZE"
    and fits: "estimateSize (JObj (chunkData k 1 [])) + estimateSize m = MAX_DOC_SIZE"
    and larger: "estimateSize m' = estimateSize m + 1"
  shows "saveOrUpdateLlmCall k dataToSave [m] merge db =
           (Done, commit [SetDoc (chunkDocId k 1) (chunkData k 1 [m]) False,
                          SetDoc k (AList.update ''chunkCount'' (JInt 1) dataToSave) merge] db) \<and>
         saveOrUpdateLlmCall k dataToSave [m'] merge db = (Thrown MessageTooLarge, db)"
proof
  from fits have c: "estimateSize (JObj (chunkData k 1 [m])) = MAX_DOC_SIZE"
    by (simp add: chunk_envelope)
  from total c show "saveOrUpdateLlmCall k dataToSave [m] merge db =
           (Done, commit [SetDoc (chunkDocId k 1) (chunkData k 1 [m]) False,
                          SetDoc k (AList.update ''chunkCount'' (JInt 1) dataToSave) merge] db)"
    by (simp add: saveOrUpdateLlmCall_def chunkedBatch_def)
next
  from fits larger have c: "estimateSize (JObj (chunkData k 1 [m'])) = MAX_DOC_SIZE + 1"
    by (simp add: chunk_envelope)
  have "jsonBytes (JObj (AList.update ''messages'' (JArr [m']) dataToSave)) + jsonBytes (JArr [m]) =
        jsonBytes (JObj (AList.update ''messages'' (JArr [m]) dataToSave)) + jsonBytes (JArr [m'])"
    by (rule jsonBytes_update)
  with larger have "estimateSize (JObj (AList.update ''messages'' (JArr [m']) dataToSave)) =
        estimateSize (JObj (AList.update ''messages'' (JArr [m]) dataToSave)) + 1"
    by (simp add: estimateSize_jsonBytes joinBytes_def)
  with total have "\<not> estimateSize (JObj (AList.update ''messages'' (JArr [m']) dataToSave)) < MAX_DOC_SIZE"
    by simp
  with c show "saveOrUpdateLlmCall k dataToSave [m'] merge db = (Thrown MessageTooLarge, db)"
    by (simp add: saveOrUpdateLlmCall_def)
qed

text \<open>
  For the call \<open>a\<close> the envelope is 46 bytes; a message with 999926 bytes of content
  serializes to 999954 bytes.
\<close>

theorem single_message_boundary_witness:
  "saveOrUpdateLlmCall ''a''
     [(''llmCallId'', JStr ''a''), (''llmId'', JStr ''test-llm''), (''description'', JStr ''Boundary'')]
     [largeMessage ''user'' 999926] True [] =
     (Done, commit [SetDoc (chunkDocId ''a'' 1) (chunkData ''a'' 1 [largeMessage ''user'' 999926]) False,
                    SetDoc ''a'' (AList.update ''chunkCount'' (JInt 1)
                      [(''llmCallId'', JStr ''a''), (''llmId'', JStr ''test-llm''),
                       (''description'', JStr ''Boundary'')]) True] []) \<and>
   saveOrUpdateLlmCall ''a''
     [(''llmCallId'', JStr ''a''), (''llmId'', JStr ''test-llm''), (''description'', JStr ''Boundary'')]
     [largeMessage ''user'' 999927] True [] = (Thrown MessageTooLarge, [])"
proof -
  let ?d = "[(''llmCallId'', JStr ''a''), (''llmId'', JStr ''test-llm''), (''description'', JStr ''Boundary'')]"
  have total: "estimateSize (JObj (AList.update ''messages'' (JArr [largeMessage ''user'' 999926]) ?d))
      \<ge> MAX_DOC_SIZE"
    by (simp add: largeMessage_def size_eval)
  have fits: "estimateSize (JObj (chunkData ''a'' 1 [])) + estimateSize (largeMessage ''user'' 999926)
      = MAX_DOC_SIZE"
    by (simp add: largeMessage_def size_eval)
  have larger: "estimateSize (largeMessage ''user'' 999927) = estimateSize (largeMessage ''user'' 999926) + 1"
    by (simp add: largeMessage_def size_eval)
  from single_message_boundary [OF total fits larger] show ?thesis .
qed

subsection \<open>\<open>delete\<close> of a stored call\<close>

lemma commit_deletes:
  "commit (map (\<lambda>(docId, d). DeleteDoc docId) docs) db = commitDeletes (map fst docs) db"
proof (induction docs arbitrary: db)
  case Nil
  show ?case by (simp add: commit_def commitDeletes_def)
next
  case (Cons p docs)
  obtain i d where p: "p = (i, d)" by (cases p)
  have "commit (map (\<lambda>(docId, d). DeleteDoc docId) (p # docs)) db =
        commit (map (\<lambda>(docId, d). DeleteDoc docId) docs) (commitDeletes [i] db)"
    by (simp add: commit_def p)
  also have "\<dots> = commitDeletes (map fst docs) (commitDeletes [i] db)"
    by (rule Cons.IH)
  also have "\<dots> = commitDeletes (map fst (p # docs)) db"
    by (auto simp: commitDeletes_def p intro: filter_cong)
  finally show ?case .
qed

lemma llmCall_delete_store:
  "llmCall_delete k db =
     (let docs = filter (\<lambda>(docId, d). map_of d ''llmCallId'' = Some (JStr k)) db in
      commitDeletes (if docs = [] then [k] else map fst docs) db)"
proof -
  have "map_of db k = None \<Longrightarrow> commitDeletes [k] db = db"
    by (force simp: commitDeletes_def map_of_eq_None_iff intro!: filter_True)
  moreover have "commit [DeleteDoc k] db = commitDeletes [k] db"
    by (simp add: commit_def)
  ultimately show ?thesis
    by (auto simp: llmCall_delete_def Let_def commit_deletes)
qed

lemma getCall_None_iff: "getCall k db = None \<longleftrightarrow> map_of db k = None"
  by (simp add: getCall_def Let_def split: option.splits)

text \<open>
  In a store with distinct document ids, the document ids the query by field returns are
  those whose document carries the id in its \<open>llmCallId\<close> field.
\<close>

lemma carriers_ids:
  assumes "distinct (map fst db)"
  shows "j \<in> set (map fst (filter (\<lambda>(docId, d). map_of d ''llmCallId'' = Some (JStr k)) db)) \<longleftrightarrow>
         (case map_of db j of None \<Rightarrow> False | Some d \<Rightarrow> map_of d ''llmCallId'' = Some (JStr k))"
proof
  assume "j \<in> set (map fst (filter (\<lambda>(docId, d). map_of d ''llmCallId'' = Some (JStr k)) db))"
  then obtain d where "(j, d) \<in> set db" "map_of d ''llmCallId'' = Some (JStr k)"
    by auto
  with assms show "case map_of db j of None \<Rightarrow> False | Some d \<Rightarrow> map_of d ''llmCallId'' = Some (JStr k)"
    by simp
next
  assume a: "case map_of db j of None \<Rightarrow> False | Some d \<Rightarrow> map_of d ''llmCallId'' = Some (JStr k)"
  then obtain d where d: "map_of db j = Some d" "map_of d ''llmCallId'' = Some (JStr k)"
    by (cases "map_of db j") auto
  from d(1) have "(j, d) \<in> set db" by (rule map_of_SomeD)
  with d(2) show "j \<in> set (map fst (filter (\<lambda>(docId, d). map_of d ''llmCallId'' = Some (JStr k)) db))"
    by force
qed

lemma llmCall_delete_map:
  assumes "distinct (map fst db)"
  shows "map_of (llmCall_delete k db) j =
         (if (case map_of db j of None \<Rightarrow> False | Some d \<Rightarrow> map_of d ''llmCallId'' = Some (JStr k)) \<or>
             (filter (\<lambda>(docId, d). map_of d ''llmCallId'' = Some (JStr k)) db = [] \<and> j = k)
          then None else map_of db j)"
proof (cases "filter (\<lambda>(docId, d). map_of d ''llmCallId'' = Some (JStr k)) db = []")
  case True
  then have "\<not> (case map_of db j of None \<Rightarrow> False | Some d \<Rightarrow> map_of d ''llmCallId'' = Some (JStr k))"
    using carriers_ids [OF assms, of j k] by simp
  with True show ?thesis
    by (simp add: llmCall_delete_store map_of_commitDeletes)
next
  case False
  then show ?thesis
    using carriers_ids [OF assms, of j k]
    by (simp add: llmCall_delete_store map_of_commitDeletes Let_def)
qed

lemma getCall_id:
  "map_of db k \<noteq> None \<Longrightarrow> \<exists>call. getCall k db = Some call \<and> map_of call ''id'' = Some (JStr k)"
  by (auto simp: getCall_def Let_def deserialize_def)

text \<open>
  C10 (as amended). \<open>delete(id)\<close> removes every document whose \<open>llmCallId\<close> field is
  \<open>id\<close>; when there is no such document, the document under \<open>id\<close> itself is removed. After
  it, \<open>getCall(id)\<close> returns null provided that, before it, the document under \<open>id\<close> (if
  any) carried \<open>llmCallId = id\<close>, or no document carried it. No other document is removed
  (the document ids being distinct): when other documents carry the id in their
  \<open>llmCallId\<close> field and the document under \<open>id\<close> does not, that document survives the
  delete and \<open>getCall(id)\<close> returns it.
\<close>

theorem llmCall_delete_removes:
  "(\<forall>(j, d) \<in> set (llmCall_delete k db). map_of d ''llmCallId'' \<noteq> Some (JStr k)) \<and>
   (filter (\<lambda>(docId, d). map_of d ''llmCallId'' = Some (JStr k)) db = []
      \<longrightarrow> map_of (llmCall_delete k db) k = None) \<and>
   ((case map_of db k of None \<Rightarrow> True | Some d \<Rightarrow> map_of d ''llmCallId'' = Some (JStr k)) \<or>
    filter (\<lambda>(docId, d). map_of d ''llmCallId'' = Some (JStr k)) db = []
      \<longrightarrow> getCall k (llmCall_delete k db) = None) \<and>
   (distinct (map fst db) \<longrightarrow>
      (\<forall>j. map_of (llmCall_delete k db) j =
         (if (case map_of db j of None \<Rightarrow> False | Some d \<Rightarrow> map_of d ''llmCallId'' = Some (JStr k)) \<or>
             (filter (\<lambda>(docId, d). map_of d ''llmCallId'' = Some (JStr k)) db = [] \<and> j = k)
          then None else map_of db j))) \<and>
   (distinct (map fst db) \<and>
    filter (\<lambda>(docId, d). map_of d ''llmCallId'' = Some (JStr k)) db \<noteq> [] \<and>
    (case map_of db k of None \<Rightarrow> False | Some d \<Rightarrow> map_of d ''llmCallId'' \<noteq> Some (JStr k))
      \<longrightarrow> map_of (llmCall_delete k db) k = map_of db k \<and>
          (\<exists>call. getCall k (llmCall_delete k db) = Some call \<and> map_of call ''id'' = Some (JStr k)))"
proof (intro conjI impI allI)
  let ?docs = "filter (\<lambda>(docId, d). map_of d ''llmCallId'' = Some (JStr k)) db"
  show "\<forall>(j, d) \<in> set (llmCall_delete k db). map_of d ''llmCallId'' \<noteq> Some (JStr k)"
  proof (cases "?docs = []")
    case True
    then have "\<forall>(j, d) \<in> set db. map_of d ''llmCallId'' \<noteq> Some (JStr k)"
      by (auto simp: filter_empty_conv)
    then show ?thesis
      by (auto simp: llmCall_delete_store commitDeletes_def Let_def)
  next
    case False
    then show ?thesis
      by (force simp: llmCall_delete_store commitDeletes_def Let_def)
  qed
next
  assume "filter (\<lambda>(docId, d). map_of d ''llmCallId'' = Some (JStr k)) db = []"
  then show "map_of (llmCall_delete k db) k = None"
    by (simp add: llmCall_delete_store map_of_commitDeletes)
next
  let ?docs = "filter (\<lambda>(docId, d). map_of d ''llmCallId'' = Some (JStr k)) db"
  assume a: "(case map_of db k of None \<Rightarrow> True | Some d \<Rightarrow> map_of d ''llmCallId'' = Some (JStr k)) \<or>
    ?docs = []"
  have "map_of (llmCall_delete k db) k = None"
  proof (cases "?docs = []")
    case True
    then show ?thesis by (simp add: llmCall_delete_store map_of_commitDeletes)
  next
    case False
    show ?thesis
    proof (cases "map_of db k")
      case None
      then show ?thesis by (simp add: llmCall_delete_store map_of_commitDeletes Let_def)
    next
      case (Some d)
      with a False have "map_of d ''llmCallId'' = Some (JStr k)" by simp
      moreover from Some have "(k, d) \<in> set db" by (rule map_of_SomeD)
      ultimately have "k \<in> set (map fst ?docs)" by force
      with False show ?thesis by (simp add: llmCall_delete_store map_of_commitDeletes Let_def)
    qed
  qed
  then show "getCall k (llmCall_delete k db) = None"
    by (simp add: getCall_None_iff)
next
  fix j
  assume "distinct (map fst db)"
  then show "map_of (llmCall_delete k db) j =
         (if (case map_of db j of None \<Rightarrow> False | Some d \<Rightarrow> map_of d ''llmCallId'' = Some (JStr k)) \<or>
             (filter (\<lambda>(docId, d). map_of d ''llmCallId'' = Some (JStr k)) db = [] \<and> j = k)
          then None else map_of db j)"
    by (rule llmCall_delete_map)
next
  assume a: "distinct (map fst db) \<and>
    filter (\<lambda>(docId, d). map_of d ''llmCallId'' = Some (JStr k)) db \<noteq> [] \<and>
    (case map_of db k of None \<Rightarrow> False | Some d \<Rightarrow> map_of d ''llmCallId'' \<noteq> Some (JStr k))"
  then obtain d where d: "map_of db k = Some d" "map_of d ''llmCallId'' \<noteq> Some (JStr k)"
    by (cases "map_of db k") auto
  with a show "map_of (llmCall_delete k db) k = map_of db k"
    by (simp add: llmCall_delete_map)
  with d(1) have "map_of (llmCall_delete k db) k \<noteq> None" by simp
  then show "\<exists>call. getCall k (llmCall_delete k db) = Some call \<and> map_of call ''id'' = Some (JStr k)"
    by (rule getCall_id)
qed

text \<open>
  The call \<open>a\<close>, saved in two chunks, is deleted with its chunks; a document without an
  \<open>llmCallId\<close> field is deleted by its id. In a store where the document \<open>k\<close> carries no
  \<open>llmCallId\<close> and the documents \<open>x\<close> and \<open>y\<close> carry \<open>k\<close> and \<open>z\<close>, \<open>delete(k)\<close> removes \<open>x\<close> and
  leaves \<open>k\<close> and \<open>y\<close>.
\<close>

theorem llmCall_delete_removes_witness:
  "getCall ''a''
     (llmCall_delete ''a''
        (snd (saveResponse (Inl NotBound)
           (exampleCall ''a'' [largeMessage ''user'' 600000, largeMessage ''system'' 600000]) [])))
     = None \<and>
   map_of (llmCall_delete ''b'' [(''b'', [(''llmId'', JStr ''test-llm'')])]) ''b'' = None \<and>
   map_of (llmCall_delete ''k''
      [(''x'', [(''llmCallId'', JStr ''k'')]), (''k'', [(''llmId'', JStr ''test-llm'')]),
       (''y'', [(''llmCallId'', JStr ''z'')])]) ''x'' = None \<and>
   map_of (llmCall_delete ''k''
      [(''x'', [(''llmCallId'', JStr ''k'')]), (''k'', [(''llmId'', JStr ''test-llm'')]),
       (''y'', [(''llmCallId'', JStr ''z'')])]) ''y'' = Some [(''llmCallId'', JStr ''z'')] \<and>
   map_of (llmCall_delete ''k''
      [(''x'', [(''llmCallId'', JStr ''k'')]), (''k'', [(''llmId'', JStr ''test-llm'')]),
       (''y'', [(''llmCallId'', JStr ''z'')])]) ''k'' = Some [(''llmId'', JStr ''test-llm'')] \<and>
   (\<exists>call. getCall ''k'' (llmCall_delete ''k''
      [(''x'', [(''llmCallId'', JStr ''k'')]), (''k'', [(''llmId'', JStr ''test-llm'')]),
       (''y'', [(''llmCallId'', JStr ''z'')])]) = Some call \<and> map_of call ''id'' = Some (JStr ''k''))"
proof -
  let ?db = "snd (saveResponse (Inl NotBound)
           (exampleCall ''a'' [largeMessage ''user'' 600000, largeMessage ''system'' 600000]) [])"
  let ?db2 = "[(''b'', [(''llmId'', JStr ''test-llm'')])]"
  let ?db3 = "[(''x'', [(''llmCallId'', JStr ''k'')]), (''k'', [(''llmId'', JStr ''test-llm'')]),
       (''y'', [(''llmCallId'', JStr ''z'')])]"
  have h: "(case map_of ?db ''a'' of None \<Rightarrow> True | Some d \<Rightarrow> map_of d ''llmCallId'' = Some (JStr ''a'')) \<or>
    filter (\<lambda>(docId, d). map_of d ''llmCallId'' = Some (JStr ''a'')) ?db = []"
    by (simp add: example_store2)
  have h2: "filter (\<lambda>(docId, d). map_of d ''llmCallId'' = Some (JStr ''b'')) ?db2 = []"
    by simp
  from llmCall_delete_removes [of "''a''" ?db] h
  have 1: "getCall ''a'' (llmCall_delete ''a'' ?db) = None" by blast
  from llmCall_delete_removes [of "''b''" ?db2] h2
  have 2: "map_of (llmCall_delete ''b'' ?db2) ''b'' = None" by blast
  have dist: "distinct (map fst ?db3)" by simp
  from llmCall_delete_removes [of "''k''" ?db3] dist
  have m: "\<And>j. map_of (llmCall_delete ''k'' ?db3) j =
         (if (case map_of ?db3 j of None \<Rightarrow> False | Some d \<Rightarrow> map_of d ''llmCallId'' = Some (JStr ''k'')) \<or>
             (filter (\<lambda>(docId, d). map_of d ''llmCallId'' = Some (JStr ''k'')) ?db3 = [] \<and> j = ''k'')
          then None else map_of ?db3 j)"
    by blast
  have 3: "map_of (llmCall_delete ''k'' ?db3) ''x'' = None"
    unfolding m by simp
  have 4: "map_of (llmCall_delete ''k'' ?db3) ''y'' = Some [(''llmCallId'', JStr ''z'')]"
    unfolding m by simp
  have s: "distinct (map fst ?db3) \<and>
    filter (\<lambda>(docId, d). map_of d ''llmCallId'' = Some (JStr ''k'')) ?db3 \<noteq> [] \<and>
    (case map_of ?db3 ''k'' of None \<Rightarrow> False | Some d \<Rightarrow> map_of d ''llmCallId'' \<noteq> Some (JStr ''k''))"
    by simp
  from llmCall_delete_removes [of "''k''" ?db3] s
  have v: "map_of (llmCall_delete ''k'' ?db3) ''k'' = map_of ?db3 ''k'' \<and>
          (\<exists>call. getCall ''k'' (llmCall_delete ''k'' ?db3) = Some call \<and>
                  map_of call ''id'' = Some (JStr ''k''))"
    by blast
  then have 5: "map_of (llmCall_delete ''k'' ?db3) ''k'' = Some [(''llmId'', JStr ''test-llm'')]"
    by simp
  from v have 6: "\<exists>call. getCall ''k'' (llmCall_delete ''k'' ?db3) = Some call \<and>
                  map_of call ''id'' = Some (JStr ''k'')"
    by (rule conjunct2)
  from 1 2 3 4 5 6 show ?thesis by (intro conjI)
qed

text \<open>
  The claim as stated fails when the document under the id does not carry the id in its
  \<open>llmCallId\<close> field while other documents do. The call \<open>a-1\<close> is saved in two chunks
  (\<open>a-1-1\<close>, \<open>a-1-2\<close>), then the call \<open>a\<close> is saved in two chunks, the first of which is
  written under the document id \<open>a-1\<close>. \<open>delete(a-1)\<close> finds \<open>a-1-1\<close> and \<open>a-1-2\<close> and
  deletes them; the document \<open>a-1\<close> stays, and \<open>getCall(a-1)\<close> returns it.
\<close>

theorem llmCall_delete_removes_counterexample:
  "getCall ''a-1''
     (llmCall_delete ''a-1''
        (snd (saveResponse (Inl NotBound)
           (exampleCall ''a'' [largeMessage ''user'' 600000, largeMessage ''system'' 600000])
           (snd (saveResponse (Inl NotBound)
              (exampleCall ''a-1'' [largeMessage ''user'' 600000, largeMessage ''system'' 600000])
              [])))))
   = Some [(''id'', JStr ''a-1''), (''messages'', JArr [largeMessage ''user'' 600000]),
           (''chunkCount'', JInt 0), (''llmCallId'', JStr ''a'')]"
proof -
  have s1: "snd (saveResponse (Inl NotBound)
              (exampleCall ''a-1'' [largeMessage ''user'' 600000, largeMessage ''system'' 600000]) []) =
    [(''a-1-1'', chunkData ''a-1'' 1 [largeMessage ''user'' 600000]),
     (''a-1-2'', chunkData ''a-1'' 2 [largeMessage ''system'' 600000]),
     (''a-1'', [(''chunkCount'', JInt 2), (''userId'', JStr ''u''), (''llmCallId'', JStr ''a-1''),
              (''llmId'', JStr ''test-llm'')])]"
    by (simp add: save_eval size_eval)
  have s2: "snd (saveResponse (Inl NotBound)
           (exampleCall ''a'' [largeMessage ''user'' 600000, largeMessage ''system'' 600000])
    [(''a-1-1'', chunkData ''a-1'' 1 [largeMessage ''user'' 600000]),
     (''a-1-2'', chunkData ''a-1'' 2 [largeMessage ''system'' 600000]),
     (''a-1'', [(''chunkCount'', JInt 2), (''userId'', JStr ''u''), (''llmCallId'', JStr ''a-1''),
              (''llmId'', JStr ''test-llm'')])]) =
    [(''a-1-1'', chunkData ''a-1'' 1 [largeMessage ''user'' 600000]),
     (''a-1-2'', chunkData ''a-1'' 2 [largeMessage ''system'' 600000]),
     (''a-1'', chunkData ''a'' 1 [largeMessage ''user'' 600000]),
     (''a-2'', chunkData ''a'' 2 [largeMessage ''system'' 600000]),
     (''a'', [(''chunkCount'', JInt 2), (''userId'', JStr ''u''), (''llmCallId'', JStr ''a''),
              (''llmId'', JStr ''test-llm'')])]"
    by (simp add: save_eval size_eval)
  have d: "llmCall_delete ''a-1''
    [(''a-1-1'', chunkData ''a-1'' 1 [largeMessage ''user'' 600000]),
     (''a-1-2'', chunkData ''a-1'' 2 [largeMessage ''system'' 600000]),
     (''a-1'', chunkData ''a'' 1 [largeMessage ''user'' 600000]),
     (''a-2'', chunkData ''a'' 2 [largeMessage ''system'' 600000]),
     (''a'', [(''chunkCount'', JInt 2), (''userId'', JStr ''u''), (''llmCallId'', JStr ''a''),
              (''llmId'', JStr ''test-llm'')])] =
    [(''a-1'', chunkData ''a'' 1 [largeMessage ''user'' 600000]),
     (''a-2'', chunkData ''a'' 2 [largeMessage ''system'' 600000]),
     (''a'', [(''chunkCount'', JInt 2), (''userId'', JStr ''u''), (''llmCallId'', JStr ''a''),
              (''llmId'', JStr ''test-llm'')])]"
    by (simp add: llmCall_delete_def commit_def commitDeletes_def chunkData_def)
  show ?thesis
    unfolding s1 s2 d
    by (simp add: getCall_def nullish_def deserialize_def copyFields_def chunkData_def)
qed

section \<open>Properties of the code review engine\<close>

subsection \<open>The example merge request\<close>

text \<open>The first review of the example, answered with no violations, and the second.\<close>

lemma example_units:
  "reviewUnits (exampleEnv response) (ProjectNumber 123) 101 ''group/project'' [exampleRule] [exampleDiff] =
     [\<lparr>unit_config = exampleRule, unit_diff = exampleDiff,
       codeWithLinesForLLM = ''// 1'' @ [CHR 0x0A] @ ''const a = 1;'' @ [CHR 0x0A] @ ''// 2'' @ [CHR 0x0A] @ ''let b;'',
       codeHashWithoutLines = ''[const a = 1;'' @ [CHR 0x0A] @ ''let b;]'',
       fingerprint = exampleFingerprint\<rparr>]"
  by code_simp

lemma example_first_review:
  "reviewMergeRequest (exampleEnv (JObj [(''thinking'', JStr ''fine''), (''violations'', JArr [])]))
     1000 (ProjectNumber 123) 101 ''group/project'' [exampleRule] [exampleDiff] [] 0 =
   \<lparr>ended = Done, llmCalls = 1,
    cacheDb = [(''proj_123_mr_101'', CacheDoc 1000 [exampleFingerprint])], discussions = 0\<rparr>"
  by code_simp

text \<open>
  The header is found at the start of any line of the diff, whichever terminator ends the
  line before it (here a carriage return and \<open>U+2028\<close>), and nowhere else.
\<close>

lemma header_after_terminators:
  "headerMatch (''index 1..2'' @ [CHR 0x0D] @ ''@@ -1 +5 @@'') = Some ''5'' \<and>
   headerMatch (''index 1..2'' @ [CHR 0xE2, CHR 0x80, CHR 0xA8] @ ''@@ -1,2 +7,2 @@'') = Some ''7'' \<and>
   headerMatch (''index 1..2 @@ -1 +5 @@'') = None"
  by code_simp

subsection \<open>A second review of an unchanged merge request\<close>

lemma set_setAdd [simp]: "set (setAdd x xs) = insert x (set xs)"
  by (auto simp: setAdd_def)

lemma processResults_all_clean:
  "\<forall>(r, fp) \<in> set results. \<not> hasComments env (comments r) \<Longrightarrow>
     \<exists>w'. processResults env results w flag g = (Done, w', flag \<or> results \<noteq> [], g) \<and>
          set w' = set w \<union> snd ` set results"
proof (induction results arbitrary: w flag)
  case Nil
  show ?case by simp
next
  case (Cons p results)
  obtain r fp where p: "p = (r, fp)" by (cases p)
  from Cons.prems p have c: "\<not> hasComments env (comments r)"
    and rest: "\<forall>(r, fp) \<in> set results. \<not> hasComments env (comments r)"
    by auto
  from Cons.IH [OF rest, of "setAdd fp w" True]
  obtain w' where "processResults env results (setAdd fp w) True g = (Done, w', True, g)"
    and "set w' = set (setAdd fp w) \<union> snd ` set results"
    by auto
  with c p show ?case by auto
qed

lemma review_nothing_to_process:
  assumes "reviewUnitsToProcess (getMergeRequestReviewCache pid mr db)
             (reviewUnits env pid mr path configs diffs) = []"
  shows "reviewMergeRequest env now pid mr path configs diffs db g =
           \<lparr>ended = Done, llmCalls = 0, cacheDb = db, discussions = g\<rparr>"
  using assms by (simp add: reviewMergeRequest_def)

lemma toProcess_empty_iff:
  "reviewUnitsToProcess c units = [] \<longleftrightarrow> (\<forall>u \<in> set units. fingerprint u \<in> set (fingerprints c))"
  by (auto simp: reviewUnitsToProcess_def filter_empty_conv)

lemma codeReviewAction_fingerprint:
  "codeReviewAction env u = Some (r, fp) \<Longrightarrow> fp = fingerprint u"
  by (auto simp: codeReviewAction_def split: sum.splits option.splits)

lemma getCache_after_update:
  "fingerprints (getMergeRequestReviewCache pid mr (updateMergeRequestReviewCache now pid mr c db)) =
     setToArray (fingerprints c)"
  by (simp add: getMergeRequestReviewCache_def updateMergeRequestReviewCache_def update_conv')

lemma first_review_all_clean:
  assumes clean: "\<forall>u \<in> set (reviewUnitsToProcess (getMergeRequestReviewCache pid mr db)
                     (reviewUnits env pid mr path configs diffs)). reviewedClean env u"
  shows "\<forall>u \<in> set (reviewUnits env pid mr path configs diffs).
           fingerprint u \<in> set (fingerprints (getMergeRequestReviewCache pid mr
             (cacheDb (reviewMergeRequest env now pid mr path configs diffs db g))))"
proof (cases "reviewUnitsToProcess (getMergeRequestReviewCache pid mr db)
                     (reviewUnits env pid mr path configs diffs) = []")
  case True
  then show ?thesis
    by (simp add: review_nothing_to_process toProcess_empty_iff)
next
  case False
  let ?c = "getMergeRequestReviewCache pid mr db"
  let ?units = "reviewUnits env pid mr path configs diffs"
  let ?tp = "reviewUnitsToProcess ?c ?units"
  let ?acts = "map (codeReviewAction env) ?tp"
  let ?res = "map the (filter (\<lambda>r. r \<noteq> None) ?acts)"
  have some: "\<And>u. u \<in> set ?tp \<Longrightarrow> \<exists>r. codeReviewAction env u = Some (r, fingerprint u) \<and>
      \<not> hasComments env (comments r)"
  proof -
    fix u assume "u \<in> set ?tp"
    with clean have "reviewedClean env u" by blast
    then obtain r fp where a: "codeReviewAction env u = Some (r, fp)" and "\<not> hasComments env (comments r)"
      by (auto simp: reviewedClean_def split: option.splits)
    moreover from a have "fp = fingerprint u" by (rule codeReviewAction_fingerprint)
    ultimately show "\<exists>r. codeReviewAction env u = Some (r, fingerprint u) \<and>
      \<not> hasComments env (comments r)" by blast
  qed
  have allclean: "\<forall>(r, fp) \<in> set ?res. \<not> hasComments env (comments r)"
    using some by force
  have fps: "snd ` set ?res = fingerprint ` set ?tp"
  proof (intro set_eqI iffI)
    fix x assume "x \<in> snd ` set ?res"
    then obtain u where "u \<in> set ?tp" "codeReviewAction env u \<noteq> None" "x = snd (the (codeReviewAction env u))"
      by auto
    with some [of u] show "x \<in> fingerprint ` set ?tp" by auto
  next
    fix x assume "x \<in> fingerprint ` set ?tp"
    then obtain u where u: "u \<in> set ?tp" "x = fingerprint u" by auto
    with some [of u] obtain r where "codeReviewAction env u = Some (r, x)" by auto
    with u(1) have "(r, x) \<in> set ?res" by force
    then show "x \<in> snd ` set ?res" by force
  qed
  from False have ne: "?res \<noteq> []"
  proof -
    from False obtain u where "u \<in> set ?tp" by (cases ?tp) auto
    with some [of u] obtain r where "codeReviewAction env u = Some (r, fingerprint u)" by auto
    with \<open>u \<in> set ?tp\<close> have "(r, fingerprint u) \<in> set ?res" by force
    then show ?thesis by (metis empty_iff empty_set)
  qed
  from processResults_all_clean [OF allclean, of "fingerprints ?c" False g] ne fps
  obtain w' where pr: "processResults env ?res (fingerprints ?c) False g = (Done, w', True, g)"
    and w': "set w' = set (fingerprints ?c) \<union> fingerprint ` set ?tp"
    by auto
  from False pr have db': "cacheDb (reviewMergeRequest env now pid mr path configs diffs db g) =
      updateMergeRequestReviewCache now pid mr (?c\<lparr>fingerprints := w'\<rparr>) db"
    by (simp add: reviewMergeRequest_def Let_def)
  show ?thesis
    unfolding db' getCache_after_update
  proof
    fix u assume "u \<in> set ?units"
    then have "fingerprint u \<in> set (fingerprints ?c) \<or> u \<in> set ?tp"
      by (auto simp: reviewUnitsToProcess_def)
    with w' show "fingerprint u \<in> set (setToArray (fingerprints (?c\<lparr>fingerprints := w'\<rparr>)))"
      by auto
  qed
qed

lemma processResults_marks:
  "processResults env results w flag g = (c, w', flag', g') \<Longrightarrow> flag' \<Longrightarrow> \<not> flag \<Longrightarrow>
     \<exists>(r, fp) \<in> set results. \<not> hasComments env (comments r)"
proof (induction results arbitrary: w flag g)
  case Nil
  then show ?case by simp
next
  case (Cons p results)
  obtain r fp where p: "p = (r, fp)" by (cases p)
  show ?case
  proof (cases "hasComments env (comments r)")
    case False
    with p show ?thesis by auto
  next
    case True
    obtain e g1 where pc: "postComments env (code r) (comments r) (mrDiff r) (reviewConfig r) g = (e, g1)"
      by (cases "postComments env (code r) (comments r) (mrDiff r) (reviewConfig r) g")
    show ?thesis
    proof (cases e)
      case None
      with True p pc Cons.prems(1) have "processResults env results w flag g1 = (c, w', flag', g')"
        by simp
      from Cons.IH [OF this Cons.prems(2,3)] show ?thesis by auto
    next
      case (Some msg)
      with True p pc Cons.prems show ?thesis by simp
    qed
  qed
qed

lemma cache_written_only_if_clean:
  assumes w: "cacheDb (reviewMergeRequest env now pid mr path configs diffs db g) \<noteq> db"
  shows "\<exists>u \<in> set (reviewUnitsToProcess (getMergeRequestReviewCache pid mr db)
                   (reviewUnits env pid mr path configs diffs)). reviewedClean env u"
proof -
  let ?c = "getMergeRequestReviewCache pid mr db"
  let ?tp = "reviewUnitsToProcess ?c (reviewUnits env pid mr path configs diffs)"
  let ?res = "map the (filter (\<lambda>r. r \<noteq> None) (map (codeReviewAction env) ?tp))"
  obtain c w' flag' g' where pr: "processResults env ?res (fingerprints ?c) False g = (c, w', flag', g')"
    by (cases "processResults env ?res (fingerprints ?c) False g") auto
  from w have ne: "?tp \<noteq> []"
    by (auto simp: reviewMergeRequest_def)
  have flag: "flag'"
  proof (rule ccontr)
    assume "\<not> flag'"
    with ne pr have "cacheDb (reviewMergeRequest env now pid mr path configs diffs db g) = db"
      by (cases c) (simp_all add: reviewMergeRequest_def Let_def)
    with w show False by simp
  qed
  have "\<exists>(r, fp) \<in> set ?res. \<not> hasComments env (comments r)"
    by (rule processResults_marks [OF pr flag]) simp
  then obtain x where xm: "x \<in> set ?res"
    and xc: "case x of (r, fp) \<Rightarrow> \<not> hasComments env (comments r)"
    by (rule bexE)
  obtain r fp where x: "x = (r, fp)" by (cases x)
  from xm x have m: "(r, fp) \<in> set ?res" by simp
  from xc x have nc: "\<not> hasComments env (comments r)" by simp
  from m have "Some (r, fp) \<in> set (map (codeReviewAction env) ?tp)"
    by force
  then obtain u where u: "u \<in> set ?tp" and a: "codeReviewAction env u = Some (r, fp)"
    by force
  from a nc have "reviewedClean env u"
    by (simp add: reviewedClean_def)
  with u show ?thesis by blast
qed

text \<open>
  C3 (as amended). A review in which every applicable unit's fingerprint is already in the
  cache performs zero LLM calls and writes nothing. Hence a second review of the same merge
  request with the same diffs and rules, after a first review in which every unit sent to
  the model came back without violations, performs zero LLM calls and leaves the cache
  document as the first review left it: the fingerprints and \<open>lastUpdated\<close> alike. The
  cache document, and with it \<open>lastUpdated\<close>, is written only by a review in which at
  least one unit sent to the model comes back clean.
\<close>

theorem second_review_uses_cache:
  "((\<forall>u \<in> set (reviewUnits env pid mr path configs diffs).
        fingerprint u \<in> set (fingerprints (getMergeRequestReviewCache pid mr db)))
      \<longrightarrow> reviewMergeRequest env now pid mr path configs diffs db g =
            \<lparr>ended = Done, llmCalls = 0, cacheDb = db, discussions = g\<rparr>) \<and>
   ((\<forall>u \<in> set (reviewUnitsToProcess (getMergeRequestReviewCache pid mr db)
                   (reviewUnits env pid mr path configs diffs)). reviewedClean env u)
      \<longrightarrow> reviewMergeRequest env now' pid mr path configs diffs
              (cacheDb (reviewMergeRequest env now pid mr path configs diffs db g)) g' =
            \<lparr>ended = Done, llmCalls = 0,
             cacheDb = cacheDb (reviewMergeRequest env now pid mr path configs diffs db g),
             discussions = g'\<rparr>) \<and>
   (cacheDb (reviewMergeRequest env now pid mr path configs diffs db g) \<noteq> db
      \<longrightarrow> (\<exists>u \<in> set (reviewUnitsToProcess (getMergeRequestReviewCache pid mr db)
                         (reviewUnits env pid mr path configs diffs)). reviewedClean env u))"
proof (intro conjI impI)
  assume "\<forall>u \<in> set (reviewUnits env pid mr path configs diffs).
        fingerprint u \<in> set (fingerprints (getMergeRequestReviewCache pid mr db))"
  then show "reviewMergeRequest env now pid mr path configs diffs db g =
            \<lparr>ended = Done, llmCalls = 0, cacheDb = db, discussions = g\<rparr>"
    by (intro review_nothing_to_process) (simp add: toProcess_empty_iff)
next
  assume "\<forall>u \<in> set (reviewUnitsToProcess (getMergeRequestReviewCache pid mr db)
                   (reviewUnits env pid mr path configs diffs)). reviewedClean env u"
  then have "\<forall>u \<in> set (reviewUnits env pid mr path configs diffs).
           fingerprint u \<in> set (fingerprints (getMergeRequestReviewCache pid mr
             (cacheDb (reviewMergeRequest env now pid mr path configs diffs db g))))"
    by (rule first_review_all_clean)
  then show "reviewMergeRequest env now' pid mr path configs diffs
              (cacheDb (reviewMergeRequest env now pid mr path configs diffs db g)) g' =
            \<lparr>ended = Done, llmCalls = 0,
             cacheDb = cacheDb (reviewMergeRequest env now pid mr path configs diffs db g),
             discussions = g'\<rparr>"
    by (intro review_nothing_to_process) (simp add: toProcess_empty_iff)
next
  assume "cacheDb (reviewMergeRequest env now pid mr path configs diffs db g) \<noteq> db"
  then show "\<exists>u \<in> set (reviewUnitsToProcess (getMergeRequestReviewCache pid mr db)
                         (reviewUnits env pid mr path configs diffs)). reviewedClean env u"
    by (rule cache_written_only_if_clean)
qed

text \<open>
  The example of the specification: the first review makes one call, finds no violation and
  caches the fingerprint; the second, a second later, makes none and leaves the cache
  document as it is. A first review that finds a violation writes no cache document.
\<close>

theorem second_review_uses_cache_witness:
  "reviewMergeRequest (exampleEnv (JObj [(''thinking'', JStr ''fine''), (''violations'', JArr [])]))
     2000 (ProjectNumber 123) 101 ''group/project'' [exampleRule] [exampleDiff]
     (cacheDb (reviewMergeRequest
        (exampleEnv (JObj [(''thinking'', JStr ''fine''), (''violations'', JArr [])]))
        1000 (ProjectNumber 123) 101 ''group/project'' [exampleRule] [exampleDiff] [] 0)) 0 =
   \<lparr>ended = Done, llmCalls = 0,
    cacheDb = [(''proj_123_mr_101'', CacheDoc 1000 [exampleFingerprint])], discussions = 0\<rparr> \<and>
   cacheDb (reviewMergeRequest (exampleEnv exampleViolations)
     1000 (ProjectNumber 123) 101 ''group/project'' [exampleRule] [exampleDiff] [] 0) = []"
proof -
  let ?env = "exampleEnv (JObj [(''thinking'', JStr ''fine''), (''violations'', JArr [])])"
  let ?env' = "exampleEnv exampleViolations"
  let ?pid = "ProjectNumber 123"
  have clean: "\<forall>u \<in> set (reviewUnitsToProcess (getMergeRequestReviewCache ?pid 101 [])
                   (reviewUnits ?env ?pid 101 ''group/project'' [exampleRule] [exampleDiff])).
                 reviewedClean ?env u"
    unfolding example_units by code_simp
  from second_review_uses_cache [of ?env ?pid 101 "''group/project''" "[exampleRule]" "[exampleDiff]" "[]" 1000 0 2000 0]
    clean
  have "reviewMergeRequest ?env 2000 ?pid 101 ''group/project'' [exampleRule] [exampleDiff]
          (cacheDb (reviewMergeRequest ?env 1000 ?pid 101 ''group/project'' [exampleRule] [exampleDiff] [] 0)) 0 =
        \<lparr>ended = Done, llmCalls = 0,
         cacheDb = cacheDb (reviewMergeRequest ?env 1000 ?pid 101 ''group/project'' [exampleRule] [exampleDiff] [] 0),
         discussions = 0\<rparr>"
    by blast
  then have 1: "reviewMergeRequest ?env 2000 ?pid 101 ''group/project'' [exampleRule] [exampleDiff]
          (cacheDb (reviewMergeRequest ?env 1000 ?pid 101 ''group/project'' [exampleRule] [exampleDiff] [] 0)) 0 =
        \<lparr>ended = Done, llmCalls = 0,
         cacheDb = [(''proj_123_mr_101'', CacheDoc 1000 [exampleFingerprint])], discussions = 0\<rparr>"
    by (simp add: example_first_review)
  have dirty: "\<not> (\<exists>u \<in> set (reviewUnitsToProcess (getMergeRequestReviewCache ?pid 101 [])
                   (reviewUnits ?env' ?pid 101 ''group/project'' [exampleRule] [exampleDiff])).
                 reviewedClean ?env' u)"
    unfolding example_units by code_simp
  from second_review_uses_cache [of ?env' ?pid 101 "''group/project''" "[exampleRule]" "[exampleDiff]" "[]" 1000 0 2000 0]
    dirty
  have 2: "cacheDb (reviewMergeRequest ?env' 1000 ?pid 101 ''group/project'' [exampleRule] [exampleDiff] [] 0) = []"
    by blast
  from 1 2 show ?thesis by (rule conjI)
qed

text \<open>
  The claim as stated fails on \<open>lastUpdated\<close>: the first review, at time 1000, stores the
  fingerprint with \<open>lastUpdated = 1000\<close>; the second, at time 2000, makes no call and
  returns before the cache is written, so the stored \<open>lastUpdated\<close> is still 1000.
\<close>

theorem second_review_uses_cache_counterexample:
  "llmCalls (reviewMergeRequest
      (exampleEnv (JObj [(''thinking'', JStr ''fine''), (''violations'', JArr [])]))
      2000 (ProjectNumber 123) 101 ''group/project'' [exampleRule] [exampleDiff]
      (cacheDb (reviewMergeRequest
         (exampleEnv (JObj [(''thinking'', JStr ''fine''), (''violations'', JArr [])]))
         1000 (ProjectNumber 123) 101 ''group/project'' [exampleRule] [exampleDiff] [] 0)) 0) = 0 \<and>
   lastUpdated (getMergeRequestReviewCache (ProjectNumber 123) 101
     (cacheDb (reviewMergeRequest
        (exampleEnv (JObj [(''thinking'', JStr ''fine''), (''violations'', JArr [])]))
        2000 (ProjectNumber 123) 101 ''group/project'' [exampleRule] [exampleDiff]
        (cacheDb (reviewMergeRequest
           (exampleEnv (JObj [(''thinking'', JStr ''fine''), (''violations'', JArr [])]))
           1000 (ProjectNumber 123) 101 ''group/project'' [exampleRule] [exampleDiff] [] 0)) 0)))
     = 1000"
  by code_simp

subsection \<open>A response of the wrong shape\<close>

text \<open>
  The guard of \<open>reviewDiff\<close> tests \<open>Array.isArray\<close> on a negation, which is a boolean, so
  \<open>reviewDiff\<close> never returns \<open>null\<close>.
\<close>

lemma reviewDiff_never_null: "reviewDiff env d codeReview currentCode \<noteq> Inr None"
  by (simp add: reviewDiff_def isArray_def split: sum.splits)

text \<open>
  C2 fails on the code: a response without the required shape does not make \<open>reviewDiff\<close>
  return \<open>null\<close>, and the unit is not skipped. The response \<open>{"thinking": "fine"}\<close> has no
  \<open>violations\<close> array; \<open>reviewDiff\<close> returns a review whose \<open>comments\<close> are \<open>undefined\<close>,
  the engine takes the unit for clean, adds its fingerprint to the cache and stores the
  cache.
\<close>

theorem invalid_response_is_cached:
  "reviewDiff (exampleEnv (JObj [(''thinking'', JStr ''fine'')])) exampleDiff exampleRule
     (''// 1'' @ [CHR 0x0A] @ ''const a = 1;'' @ [CHR 0x0A] @ ''// 2'' @ [CHR 0x0A] @ ''let b;'') =
     Inr (Some \<lparr>code = ''// 1'' @ [CHR 0x0A] @ ''const a = 1;'' @ [CHR 0x0A] @ ''// 2'' @ [CHR 0x0A] @ ''let b;'',
                comments = None, mrDiff = exampleDiff, reviewConfig = exampleRule\<rparr>) \<and>
   reviewMergeRequest (exampleEnv (JObj [(''thinking'', JStr ''fine'')]))
     1000 (ProjectNumber 123) 101 ''group/project'' [exampleRule] [exampleDiff] [] 0 =
   \<lparr>ended = Done, llmCalls = 1,
    cacheDb = [(''proj_123_mr_101'', CacheDoc 1000 [exampleFingerprint])], discussions = 0\<rparr>"
  by code_simp

end
